theory Spec2Isabelle
  imports Complex_Main "HOL-Library.Char_ord" "HOL-Library.List_Lexorder" "HOL-Library.FSet" "HOL-Library.AList" "HOL-Library.Multiset"
begin

section \<open>The KATCP wire codec (katcp.py: Message, MessageParser)\<close>

text \<open>
  Python 2 byte strings are modelled as \<open>string\<close> (lists of 8-bit characters).
  The character tests \<open>str.isalpha\<close> and \<open>str.isalnum\<close> are those of the C locale
  (ASCII letters and digits).  Exceptions are values of the type \<open>exn\<close>.
\<close>

datatype syntax_error =
    Invalid_command_type
  | Missing_command_name
  | Name_not_alphanumeric
  | Name_not_alpha_start
  | Escape_slash_at_end
  | Invalid_escape_character char
  | Unescaped_special char
  | Empty_message
  | Bad_type_character char

datatype exn =
    KatcpSyntaxError syntax_error
  | KeyError
  | IndexError
  | ValueError
  | AssertionError
  | UnboundLocalError
  | FailReply string
  | AsyncReply
  | OtherException string

record message =
  mtype :: nat
  name :: string
  arguments :: "string list"

definition REQUEST :: nat where "REQUEST = 0"
definition REPLY :: nat where "REPLY = 1"
definition INFORM :: nat where "INFORM = 2"

definition BACKSLASH :: char where "BACKSLASH = CHR 0x5C"
definition SPACE :: char where "SPACE = CHR 0x20"
definition NUL :: char where "NUL = CHR 0x00"
definition LF :: char where "LF = CHR 0x0A"
definition CR :: char where "CR = CHR 0x0D"
definition ESC :: char where "ESC = CHR 0x1B"
definition TAB :: char where "TAB = CHR 0x09"

text \<open>\<open>Message.TYPE_SYMBOLS\<close> and its inverse \<open>TYPE_SYMBOL_LOOKUP\<close>.\<close>

definition TYPE_SYMBOLS :: "nat \<rightharpoonup> char" where
  "TYPE_SYMBOLS = [REQUEST \<mapsto> CHR ''?'', REPLY \<mapsto> CHR ''!'', INFORM \<mapsto> CHR ''#'']"

definition TYPE_SYMBOL_LOOKUP :: "char \<rightharpoonup> nat" where
  "TYPE_SYMBOL_LOOKUP = [CHR ''?'' \<mapsto> REQUEST, CHR ''!'' \<mapsto> REPLY, CHR ''#'' \<mapsto> INFORM]"

text \<open>\<open>Message.ESCAPE_LOOKUP\<close>: escape character to unescaped string.\<close>

definition ESCAPE_LOOKUP :: "char \<rightharpoonup> string" where
  "ESCAPE_LOOKUP =
     [BACKSLASH \<mapsto> [BACKSLASH], CHR ''_'' \<mapsto> [SPACE], CHR ''0'' \<mapsto> [NUL],
      CHR ''n'' \<mapsto> [LF], CHR ''r'' \<mapsto> [CR], CHR ''e'' \<mapsto> [ESC],
      CHR ''t'' \<mapsto> [TAB], CHR ''@'' \<mapsto> []]"

text \<open>\<open>Message.REVERSE_ESCAPE_LOOKUP\<close>: unescaped string to escape character.\<close>

definition REVERSE_ESCAPE_LOOKUP :: "string \<rightharpoonup> char" where
  "REVERSE_ESCAPE_LOOKUP =
     [[BACKSLASH] \<mapsto> BACKSLASH, [SPACE] \<mapsto> CHR ''_'', [NUL] \<mapsto> CHR ''0'',
      [LF] \<mapsto> CHR ''n'', [CR] \<mapsto> CHR ''r'', [ESC] \<mapsto> CHR ''e'',
      [TAB] \<mapsto> CHR ''t'', [] \<mapsto> CHR ''@'']"

text \<open>The character classes of \<open>ESCAPE_RE\<close>, \<open>SPECIAL_RE\<close> and \<open>WHITESPACE_RE\<close>.\<close>

definition ESCAPE_RE :: "char \<Rightarrow> bool" where
  "ESCAPE_RE c = (c = BACKSLASH \<or> c = SPACE \<or> c = NUL \<or> c = LF \<or> c = CR \<or> c = ESC \<or> c = TAB)"

definition SPECIAL_RE :: "char \<Rightarrow> bool" where
  "SPECIAL_RE c = (c = NUL \<or> c = LF \<or> c = CR \<or> c = ESC \<or> c = TAB \<or> c = SPACE)"

definition WHITESPACE_RE :: "char \<Rightarrow> bool" where
  "WHITESPACE_RE c = (c = SPACE \<or> c = TAB)"

definition isalpha :: "char \<Rightarrow> bool" where
  "isalpha c = (let n = (of_char c :: nat) in (65 \<le> n \<and> n \<le> 90) \<or> (97 \<le> n \<and> n \<le> 122))"

definition isdigit :: "char \<Rightarrow> bool" where
  "isdigit c = (let n = (of_char c :: nat) in 48 \<le> n \<and> n \<le> 57)"

definition isalnum :: "char \<Rightarrow> bool" where
  "isalnum c = (isalpha c \<or> isdigit c)"

text \<open>\<open>s.isalnum()\<close>: every character is alphanumeric and there is at least one.\<close>

definition str_isalnum :: "string \<Rightarrow> bool" where
  "str_isalnum s = (s \<noteq> [] \<and> list_all isalnum s)"

text \<open>\<open>name.replace("-", "")\<close>.\<close>

definition remove_dashes :: "string \<Rightarrow> string" where
  "remove_dashes s = filter (\<lambda>c. c \<noteq> CHR ''-'') s"

text \<open>\<open>Message.__init__\<close>: the checks in the order of the source.\<close>

definition Message_init :: "nat \<Rightarrow> string \<Rightarrow> string list \<Rightarrow> exn + message" where
  "Message_init t n args =
     (if TYPE_SYMBOLS t = None then Inl (KatcpSyntaxError Invalid_command_type)
      else if n = [] then Inl (KatcpSyntaxError Missing_command_name)
      else if \<not> str_isalnum (remove_dashes n) then Inl (KatcpSyntaxError Name_not_alphanumeric)
      else if \<not> isalpha (hd n) then Inl (KatcpSyntaxError Name_not_alpha_start)
      else Inr \<lparr>mtype = t, name = n, arguments = args\<rparr>)"

text \<open>
  \<open>Message._escape_match\<close>: a backslash and the escape character of the matched
  character; \<open>ESCAPE_RE.sub\<close> applies it to every match.
\<close>

definition escape_match :: "char \<Rightarrow> exn + string" where
  "escape_match c =
     (case REVERSE_ESCAPE_LOOKUP [c] of None \<Rightarrow> Inl KeyError | Some e \<Rightarrow> Inr [BACKSLASH, e])"

fun escape_sub :: "string \<Rightarrow> exn + string" where
  "escape_sub [] = Inr []"
| "escape_sub (c # cs) =
     (if ESCAPE_RE c then
        (case escape_match c of Inl e \<Rightarrow> Inl e
         | Inr r \<Rightarrow> (case escape_sub cs of Inl e \<Rightarrow> Inl e | Inr rest \<Rightarrow> Inr (r @ rest)))
      else (case escape_sub cs of Inl e \<Rightarrow> Inl e | Inr rest \<Rightarrow> Inr (c # rest)))"

text \<open>A list comprehension over a function that may raise stops at the first exception.\<close>

fun map_exn :: "('a \<Rightarrow> exn + 'b) \<Rightarrow> 'a list \<Rightarrow> exn + 'b list" where
  "map_exn f [] = Inr []"
| "map_exn f (x # xs) =
     (case f x of Inl e \<Rightarrow> Inl e
      | Inr y \<Rightarrow> (case map_exn f xs of Inl e \<Rightarrow> Inl e | Inr ys \<Rightarrow> Inr (y # ys)))"

text \<open>\<open>sep.join(xs)\<close>.\<close>

fun join :: "string \<Rightarrow> string list \<Rightarrow> string" where
  "join sep [] = []"
| "join sep [x] = x"
| "join sep (x # y # ys) = x @ sep @ join sep (y # ys)"

text \<open>\<open>x or "\\@"\<close>: an empty escaped argument is written as backslash-at.\<close>

definition or_empty :: "string \<Rightarrow> string" where
  "or_empty x = (if x = [] then [BACKSLASH, CHR ''@''] else x)"

text \<open>\<open>Message.__str__\<close>.\<close>

definition Message_str :: "message \<Rightarrow> exn + string" where
  "Message_str m =
     (case (if arguments m \<noteq> [] then
              (case map_exn escape_sub (arguments m) of Inl e \<Rightarrow> Inl e
               | Inr escaped_args \<Rightarrow> Inr ([SPACE] @ join [SPACE] (map or_empty escaped_args)))
            else Inr [])
      of Inl e \<Rightarrow> Inl e
      | Inr arg_str \<Rightarrow>
          (case TYPE_SYMBOLS (mtype m) of None \<Rightarrow> Inl KeyError
           | Some symbol \<Rightarrow> Inr ([symbol] @ name m @ arg_str)))"

text \<open>
  \<open>UNESCAPE_RE.sub(self._unescape_match, arg)\<close> for the pattern backslash followed by
  at most one character.  The dot does not match a line feed, so that a backslash before a
  line feed matches with an empty group, like a backslash at the end.
\<close>

definition unescape_match :: "string \<Rightarrow> exn + string" where
  "unescape_match g =
     (case g of
        [] \<Rightarrow> Inl (KatcpSyntaxError Escape_slash_at_end)
      | c # _ \<Rightarrow> (case ESCAPE_LOOKUP c of Some r \<Rightarrow> Inr r
                  | None \<Rightarrow> Inl (KatcpSyntaxError (Invalid_escape_character c))))"

fun unescape_sub :: "string \<Rightarrow> exn + string" where
  "unescape_sub [] = Inr []"
| "unescape_sub [c] =
     (if c = BACKSLASH then unescape_match [] else Inr [c])"
| "unescape_sub (c # d # ds) =
     (if c = BACKSLASH then
        (if d = LF then
           (case unescape_match [] of Inl e \<Rightarrow> Inl e
            | Inr r \<Rightarrow> (case unescape_sub (d # ds) of Inl e \<Rightarrow> Inl e | Inr rest \<Rightarrow> Inr (r @ rest)))
         else
           (case unescape_match [d] of Inl e \<Rightarrow> Inl e
            | Inr r \<Rightarrow> (case unescape_sub ds of Inl e \<Rightarrow> Inl e | Inr rest \<Rightarrow> Inr (r @ rest))))
      else (case unescape_sub (d # ds) of Inl e \<Rightarrow> Inl e | Inr rest \<Rightarrow> Inr (c # rest)))"

text \<open>\<open>MessageParser._parse_arg\<close>: \<open>SPECIAL_RE.search\<close> finds the first special character.\<close>

definition parse_arg :: "string \<Rightarrow> exn + string" where
  "parse_arg arg =
     (case find SPECIAL_RE arg of
        Some c \<Rightarrow> Inl (KatcpSyntaxError (Unescaped_special c))
      | None \<Rightarrow> unescape_sub arg)"

text \<open>
  \<open>WHITESPACE_RE.split(line)\<close>: the fields between the maximal runs of spaces and tabs.
  The first argument is the field read so far.
\<close>

function whitespace_split :: "string \<Rightarrow> string \<Rightarrow> string list" where
  "whitespace_split cur [] = [cur]"
| "whitespace_split cur (c # cs) =
     (if WHITESPACE_RE c then cur # whitespace_split [] (dropWhile WHITESPACE_RE cs)
      else whitespace_split (cur @ [c]) cs)"
  by pat_completeness auto
termination
  by (relation "measure (\<lambda>(cur, s). length s)")
     (auto simp: le_imp_less_Suc length_dropWhile_le)

text \<open>\<open>MessageParser.parse\<close>.\<close>

definition parse :: "string \<Rightarrow> exn + message" where
  "parse line =
     (case line of
        [] \<Rightarrow> Inl (KatcpSyntaxError Empty_message)
      | type_char # _ \<Rightarrow>
          (case TYPE_SYMBOL_LOOKUP type_char of
             None \<Rightarrow> Inl (KatcpSyntaxError (Bad_type_character type_char))
           | Some t \<Rightarrow>
               (let parts = whitespace_split [] line;
                    parts = (if last parts = [] then butlast parts else parts)
                in case parts of
                     [] \<Rightarrow> Inl IndexError
                   | p # ps \<Rightarrow>
                       (case map_exn parse_arg ps of
                          Inl e \<Rightarrow> Inl e
                        | Inr args \<Rightarrow> Message_init t (drop 1 p) args))))"

subsection \<open>Malformed lines, in the words of the specification\<close>

text \<open>
  The definitions of this subsection follow the specification, not the source: they say
  which lines the specification calls malformed, to be compared with \<open>parse\<close>.

  The words of a line are its maximal runs of characters other than space and tab.  The
  command name is the first word without the leading type byte; the argument tokens are the
  other words.
\<close>

function line_words :: "string \<Rightarrow> string list" where
  "line_words [] = []"
| "line_words (c # cs) =
     (if c = SPACE \<or> c = TAB then line_words cs
      else (c # takeWhile (\<lambda>x. x \<noteq> SPACE \<and> x \<noteq> TAB) cs)
             # line_words (dropWhile (\<lambda>x. x \<noteq> SPACE \<and> x \<noteq> TAB) cs))"
  by pat_completeness auto
termination
  by (relation "measure length") (auto simp: le_imp_less_Suc length_dropWhile_le)

definition command_name :: "string \<Rightarrow> string" where
  "command_name line = (case line_words line of [] \<Rightarrow> [] | w # _ \<Rightarrow> drop 1 w)"

definition argument_tokens :: "string \<Rightarrow> string list" where
  "argument_tokens line = (case line_words line of [] \<Rightarrow> [] | _ # ws \<Rightarrow> ws)"

text \<open>
  A token is read from the left: a backslash takes the character after it as its escape
  character; a backslash with nothing after it is a lone backslash; any other character
  stands for itself, unescaped.
\<close>

datatype item = Plain char | Escape char | Lone_backslash

fun token_items :: "string \<Rightarrow> item list" where
  "token_items [] = []"
| "token_items [c] = (if c = BACKSLASH then [Lone_backslash] else [Plain c])"
| "token_items (c # d # ds) =
     (if c = BACKSLASH then Escape d # token_items ds else Plain c # token_items (d # ds))"

definition escape_alphabet :: "char list" where
  "escape_alphabet =
     [BACKSLASH, CHR ''_'', CHR ''0'', CHR ''n'', CHR ''r'', CHR ''e'', CHR ''t'', CHR ''@'']"

definition special_bytes :: "char list" where
  "special_bytes = [NUL, LF, CR, ESC, TAB, SPACE]"

fun bad_item :: "item \<Rightarrow> bool" where
  "bad_item Lone_backslash = True"
| "bad_item (Escape d) = (d \<notin> set escape_alphabet)"
| "bad_item (Plain c) = (c \<in> set special_bytes)"

definition bad_token :: "string \<Rightarrow> bool" where
  "bad_token tok = list_ex bad_item (token_items tok)"

definition name_char :: "char \<Rightarrow> bool" where
  "name_char c = (isalpha c \<or> isdigit c \<or> c = CHR ''-'')"

definition bad_name :: "string \<Rightarrow> bool" where
  "bad_name nm = (case nm of [] \<Rightarrow> True | c # _ \<Rightarrow> \<not> isalpha c \<or> list_ex (\<lambda>x. \<not> name_char x) nm)"

definition malformed :: "string \<Rightarrow> bool" where
  "malformed line =
     (case line of
        [] \<Rightarrow> True
      | b # _ \<Rightarrow> b \<notin> set [CHR ''?'', CHR ''!'', CHR ''#'']
                 \<or> bad_name (command_name line)
                 \<or> list_ex bad_token (argument_tokens line))"

section \<open>Sensors and their observers (katcp.py: Sensor)\<close>

text \<open>
  Python values held by a sensor.  A float is modelled by the real number it denotes (NaN and
  the infinities are outside the model); the sensor code only compares and stores values.
\<close>

datatype pyvalue = PyInt int | PyFloat real | PyBool bool | PyStr string

fun as_number :: "pyvalue \<Rightarrow> real option" where
  "as_number (PyInt i) = Some (of_int i)"
| "as_number (PyFloat x) = Some x"
| "as_number (PyBool b) = Some (if b then 1 else 0)"
| "as_number (PyStr s) = None"

text \<open>
  \<open>a <= b\<close> in Python 2: numbers (booleans included) compare by value, strings
  lexicographically by byte, and a number is smaller than a string.
\<close>

fun py_le :: "pyvalue \<Rightarrow> pyvalue \<Rightarrow> bool" where
  "py_le (PyStr s) (PyStr t) = (s \<le> t)"
| "py_le (PyStr s) b = False"
| "py_le a (PyStr t) = True"
| "py_le a b = (case (as_number a, as_number b) of (Some x, Some y) \<Rightarrow> x \<le> y | _ \<Rightarrow> False)"

datatype sensor_type = INTEGER | FLOAT | BOOLEAN | LRU | DISCRETE | STRING | TIMESTAMP

text \<open>Sensor status constants \<open>UNKNOWN, NOMINAL, WARN, ERROR, FAILURE = range(5)\<close>.\<close>

definition UNKNOWN :: nat where "UNKNOWN = 0"
definition NOMINAL :: nat where "NOMINAL = 1"
definition WARN :: nat where "WARN = 2"
definition ERROR :: nat where "ERROR = 3"
definition FAILURE :: nat where "FAILURE = 4"

text \<open>
  Modelled from the spec: the value types of \<open>kattypes.py\<close> (\<open>Int\<close>, \<open>Float\<close>, \<open>Bool\<close>,
  \<open>Lru\<close>, \<open>Discrete\<close>, \<open>Str\<close>, \<open>Timestamp\<close>), which is not among the sources.  Numeric types
  carry an inclusive minimum and maximum, \<open>Discrete\<close> carries its allowed values, \<open>Lru\<close> has
  two permitted values.
\<close>

datatype kattype =
    Kat_Int pyvalue pyvalue
  | Kat_Float pyvalue pyvalue
  | Kat_Bool
  | Kat_Lru "pyvalue list"
  | Kat_Discrete "pyvalue list"
  | Kat_Str
  | Kat_Timestamp

text \<open>
  Modelled from the spec: \<open>check\<close> of \<open>kattypes.py\<close>.  ``Numeric types carry an inclusive
  [min,max] and check rejects out-of-range values.  DISCRETE carries an allowed-value set and
  check rejects values not in it.''  LRU accepts its two permitted values.  For the other
  types the specification states no constraint.
\<close>

fun kattype_check :: "kattype \<Rightarrow> pyvalue \<Rightarrow> exn + unit" where
  "kattype_check (Kat_Int lo hi) v = (if py_le lo v \<and> py_le v hi then Inr () else Inl ValueError)"
| "kattype_check (Kat_Float lo hi) v = (if py_le lo v \<and> py_le v hi then Inr () else Inl ValueError)"
| "kattype_check (Kat_Discrete vs) v = (if v \<in> set vs then Inr () else Inl ValueError)"
| "kattype_check (Kat_Lru vs) v = (if v \<in> set vs then Inr () else Inl ValueError)"
| "kattype_check Kat_Bool v = Inr ()"
| "kattype_check Kat_Str v = Inr ()"
| "kattype_check Kat_Timestamp v = Inr ()"

text \<open>
  What the sensor code takes from \<open>kattypes.py\<close> without its definition being among the
  sources: the two LRU constants, the formatter \<open>pack\<close> and the parser \<open>unpack\<close> of a
  value type, and \<open>decode\<close> of the timestamp type.  They are parameters of the model.
\<close>

record kattypes =
  LRU_NOMINAL :: pyvalue
  LRU_ERROR :: pyvalue
  pack :: "kattype \<Rightarrow> pyvalue \<Rightarrow> exn + string"
  unpack :: "kattype \<Rightarrow> string \<Rightarrow> exn + pyvalue"
  decode_timestamp :: "string \<Rightarrow> exn + real"

record sensor =
  sensor_type :: sensor_type
  observers :: "nat fset"
  timestamp :: real
  status :: nat
  svalue :: pyvalue
  kattype :: kattype
  sname :: string
  description :: string
  units :: string
  params :: "pyvalue list"
  formatted_params :: "string list"

text \<open>The default values of the table \<open>Sensor.SENSOR_TYPES\<close>.\<close>

fun default_value :: "kattypes \<Rightarrow> sensor_type \<Rightarrow> pyvalue" where
  "default_value K INTEGER = PyInt 0"
| "default_value K FLOAT = PyFloat 0"
| "default_value K BOOLEAN = PyBool False"
| "default_value K LRU = LRU_NOMINAL K"
| "default_value K DISCRETE = PyStr ''unknown''"
| "default_value K STRING = PyStr []"
| "default_value K TIMESTAMP = PyFloat 0"

text \<open>\<open>xs[i]\<close>, which raises \<open>IndexError\<close> out of range.\<close>

definition index :: "'a list \<Rightarrow> nat \<Rightarrow> exn + 'a" where
  "index xs i = (if i < length xs then Inr (xs ! i) else Inl IndexError)"

text \<open>
  The branch of \<open>Sensor.__init__\<close> that chooses the initial value and builds the value type
  from the parameters.
\<close>

definition init_value_kattype ::
    "kattypes \<Rightarrow> sensor_type \<Rightarrow> pyvalue list \<Rightarrow> exn + (pyvalue \<times> kattype)" where
  "init_value_kattype K t ps =
     (let v = default_value K t in
      if t = INTEGER \<or> t = FLOAT then
        (case index ps 0 of Inl e \<Rightarrow> Inl e
         | Inr p0 \<Rightarrow>
            (case index ps 1 of Inl e \<Rightarrow> Inl e
             | Inr p1 \<Rightarrow>
                 (let v' = (if \<not> (py_le p0 v \<and> py_le v p1) then p0 else v)
                  in Inr (v', if t = INTEGER then Kat_Int p0 p1 else Kat_Float p0 p1))))
      else if t = DISCRETE then
        (case index ps 0 of Inl e \<Rightarrow> Inl e | Inr p0 \<Rightarrow> Inr (p0, Kat_Discrete ps))
      else Inr (v, case t of BOOLEAN \<Rightarrow> Kat_Bool | LRU \<Rightarrow> Kat_Lru [LRU_NOMINAL K, LRU_ERROR K]
                      | STRING \<Rightarrow> Kat_Str | _ \<Rightarrow> Kat_Timestamp))"

text \<open>
  \<open>Sensor.__init__\<close>.  \<open>now\<close> is the reading of \<open>time.time()\<close>; a missing \<open>params\<close> or
  \<open>default\<close> argument is \<open>None\<close>.
\<close>

definition Sensor_init ::
    "kattypes \<Rightarrow> real \<Rightarrow> sensor_type \<Rightarrow> string \<Rightarrow> string \<Rightarrow> string \<Rightarrow>
     pyvalue list option \<Rightarrow> pyvalue option \<Rightarrow> exn + sensor" where
  "Sensor_init K now t nm descr un params_opt default_opt =
     (let ps = (case params_opt of None \<Rightarrow> [] | Some ps \<Rightarrow> ps) in
      case init_value_kattype K t ps of
        Inl e \<Rightarrow> Inl e
      | Inr (v, kt) \<Rightarrow>
          (case map_exn (pack K kt) ps of
             Inl e \<Rightarrow> Inl e
           | Inr fps \<Rightarrow>
               Inr \<lparr>sensor_type = t, observers = {||}, timestamp = now, status = UNKNOWN,
                    svalue = (case default_opt of None \<Rightarrow> v | Some d \<Rightarrow> d),
                    kattype = kt, sname = nm, description = descr, units = un,
                    params = ps, formatted_params = fps\<rparr>))"

text \<open>\<open>Sensor.attach\<close> and \<open>Sensor.detach\<close>.\<close>

definition attach :: "nat \<Rightarrow> sensor \<Rightarrow> sensor" where
  "attach ob s = s\<lparr>observers := finsert ob (observers s)\<rparr>"

definition detach :: "nat \<Rightarrow> sensor \<Rightarrow> sensor" where
  "detach ob s = s\<lparr>observers := observers s |-| {|ob|}\<rparr>"

text \<open>
  Observers are identified by numbers.  The \<open>update(sensor)\<close> method of an observer is code
  outside the sensor class, and the sensor calls it unguarded.  \<open>upd ob s w\<close> is what observer
  \<open>ob\<close> does when it is updated with the sensor in state \<open>s\<close> and the rest of the program in
  state \<open>w\<close>: it returns (\<open>None\<close>) or raises, and leaves the sensor and the rest of the
  program in a state of its choice; so it may attach and detach observers, and store a value.
\<close>

type_synonym 'w update = "nat \<Rightarrow> sensor \<Rightarrow> 'w \<Rightarrow> exn option \<times> sensor \<times> 'w"

text \<open>
  How a call on a sensor ends: the exception that leaves it, if any, the sensor and the rest
  of the program after it, and the observers whose \<open>update\<close> the call itself has called, in
  order.
\<close>

record 'w outcome =
  raised :: "exn option"
  sensor_after :: sensor
  world_after :: 'w
  updated :: "nat list"

text \<open>
  \<open>Sensor.notify\<close>: \<open>for o in list(self._observers): o.update(self)\<close>.  The order in which
  a Python set is listed is not specified; \<open>order\<close> is that order.  The list is made before
  the loop starts, and an exception of an \<open>update\<close> ends the loop and leaves \<open>notify\<close>.
\<close>

fun notify_loop :: "'w update \<Rightarrow> nat list \<Rightarrow> sensor \<Rightarrow> 'w \<Rightarrow> 'w outcome" where
  "notify_loop upd [] s w = \<lparr>raised = None, sensor_after = s, world_after = w, updated = []\<rparr>"
| "notify_loop upd (ob # obs) s w =
     (case upd ob s w of
        (Some e, s', w') \<Rightarrow> \<lparr>raised = Some e, sensor_after = s', world_after = w', updated = [ob]\<rparr>
      | (None, s', w') \<Rightarrow>
          (let r = notify_loop upd obs s' w' in r\<lparr>updated := ob # updated r\<rparr>))"

definition notify :: "'w update \<Rightarrow> (nat fset \<Rightarrow> nat list) \<Rightarrow> sensor \<Rightarrow> 'w \<Rightarrow> 'w outcome" where
  "notify upd order s w = notify_loop upd (order (observers s)) s w"

text \<open>\<open>Sensor.set\<close>: the three fields are assigned, then the observers are notified.\<close>

definition Sensor_set ::
    "'w update \<Rightarrow> (nat fset \<Rightarrow> nat list) \<Rightarrow> sensor \<Rightarrow> 'w \<Rightarrow> real \<Rightarrow> nat \<Rightarrow> pyvalue \<Rightarrow> 'w outcome" where
  "Sensor_set upd order s w ts st v =
     notify upd order (s\<lparr>timestamp := ts, status := st, svalue := v\<rparr>) w"

text \<open>A call that raises before it has done anything.\<close>

definition raises :: "exn \<Rightarrow> sensor \<Rightarrow> 'w \<Rightarrow> 'w outcome" where
  "raises e s w = \<lparr>raised = Some e, sensor_after = s, world_after = w, updated = []\<rparr>"

text \<open>
  \<open>Sensor.set_value\<close>: the check comes first.  \<open>now\<close> is the reading of \<open>time.time()\<close>, used
  when no timestamp is given.
\<close>

definition set_value ::
    "'w update \<Rightarrow> (nat fset \<Rightarrow> nat list) \<Rightarrow> real \<Rightarrow> sensor \<Rightarrow> 'w \<Rightarrow> pyvalue \<Rightarrow> nat \<Rightarrow>
     real option \<Rightarrow> 'w outcome" where
  "set_value upd order now s w v st ts_opt =
     (case kattype_check (kattype s) v of
        Inl e \<Rightarrow> raises e s w
      | Inr _ \<Rightarrow> Sensor_set upd order s w (case ts_opt of None \<Rightarrow> now | Some ts \<Rightarrow> ts) st v)"

text \<open>The table \<open>Sensor.STATUS_NAMES\<close>, the inverse of \<open>Sensor.STATUSES\<close>.\<close>

definition STATUS_NAMES :: "string \<rightharpoonup> nat" where
  "STATUS_NAMES = map_of [(''unknown'', UNKNOWN), (''nominal'', NOMINAL), (''warn'', WARN),
                          (''error'', ERROR), (''failure'', FAILURE)]"

text \<open>
  \<open>Sensor.set_formatted\<close>: the three strings are decoded in turn (\<open>parse_value\<close> is the
  \<open>unpack\<close> of the sensor's type), then \<open>set\<close> is called.
\<close>

definition set_formatted ::
    "kattypes \<Rightarrow> 'w update \<Rightarrow> (nat fset \<Rightarrow> nat list) \<Rightarrow> sensor \<Rightarrow> 'w \<Rightarrow> string \<Rightarrow> string \<Rightarrow>
     string \<Rightarrow> 'w outcome" where
  "set_formatted K upd order s w raw_timestamp raw_status raw_value =
     (case decode_timestamp K raw_timestamp of
        Inl e \<Rightarrow> raises e s w
      | Inr ts \<Rightarrow>
          (case STATUS_NAMES raw_status of
             None \<Rightarrow> raises KeyError s w
           | Some st \<Rightarrow>
               (case unpack K (kattype s) raw_value of
                  Inl e \<Rightarrow> raises e s w
                | Inr v \<Rightarrow> Sensor_set upd order s w ts st v)))"

text \<open>\<open>Sensor.read\<close> and \<open>Sensor.value\<close> (here \<open>Sensor_value\<close>).\<close>

definition read :: "sensor \<Rightarrow> real \<times> nat \<times> pyvalue" where
  "read s = (timestamp s, status s, svalue s)"

definition Sensor_value :: "sensor \<Rightarrow> pyvalue" where
  "Sensor_value s = snd (snd (read s))"

text \<open>The stored value satisfies the domain and parameters of the sensor's type.\<close>

definition value_in_domain :: "sensor \<Rightarrow> bool" where
  "value_in_domain s = (kattype_check (kattype s) (Sensor_value s) = Inr ())"

text \<open>
  The \<open>update\<close> methods store no value themselves: they leave the value and the type of the
  sensor as they find them.
\<close>

definition stores_nothing :: "'w update \<Rightarrow> bool" where
  "stores_nothing upd =
     (\<forall>ob s w. svalue (fst (snd (upd ob s w))) = svalue s
              \<and> kattype (fst (snd (upd ob s w))) = kattype s)"

text \<open>
  The values that \<open>unpack\<close> returns pass the check of their type.
\<close>

definition unpack_checks :: "kattypes \<Rightarrow> bool" where
  "unpack_checks K = (\<forall>kt raw v. unpack K kt raw = Inr v \<longrightarrow> kattype_check kt v = Inr ())"






text \<open>
  The sensor of the repository's tests (\<open>test_sampling.py\<close>): an INTEGER sensor with
  parameters \<open>[-4, 3]\<close>.  In the examples \<open>unpack\<close> reads a decimal digit and checks it, and the
  rest of the program is a counter of the updates made.
\<close>

definition test_unpack :: "kattype \<Rightarrow> string \<Rightarrow> exn + pyvalue" where
  "test_unpack kt raw =
     (case raw of
        [c] \<Rightarrow> (if isdigit c
                then (case kattype_check kt (PyInt (int (of_char c) - 48)) of
                        Inl e \<Rightarrow> Inl e
                      | Inr _ \<Rightarrow> Inr (PyInt (int (of_char c) - 48)))
                else Inl ValueError)
      | _ \<Rightarrow> Inl ValueError)"

definition test_kattypes :: kattypes where
  "test_kattypes = \<lparr>LRU_NOMINAL = PyInt 0, LRU_ERROR = PyInt 1, pack = (\<lambda>kt v. Inr []),
                    unpack = test_unpack,
                    decode_timestamp = (\<lambda>raw. if raw = ''12345000'' then Inr 12345 else Inl ValueError)\<rparr>"

definition an_int :: sensor where
  "an_int = \<lparr>sensor_type = INTEGER, observers = {||}, timestamp = 0, status = UNKNOWN,
             svalue = PyInt 0, kattype = Kat_Int (PyInt (- 4)) (PyInt 3), sname = ''an.int'',
             description = ''An integer.'', units = ''count'',
             params = [PyInt (- 4), PyInt 3], formatted_params = [[], []]\<rparr>"

text \<open>Observers that count their updates and do nothing else.\<close>

definition quiet :: "nat update" where
  "quiet ob s w = (None, s, Suc w)"


text \<open>Observers whose \<open>update\<close> raises.\<close>

definition failing :: "nat update" where
  "failing ob s w = (Some (OtherException ''update failed''), s, Suc w)"

text \<open>Observers whose \<open>update\<close> stores the value 9 in the sensor.\<close>

definition storing :: "nat update" where
  "storing ob s w = (None, s\<lparr>svalue := PyInt 9\<rparr>, Suc w)"

section \<open>The device server (katcp.py: DeviceServerBase, DeviceServer)\<close>

text \<open>
  Sockets are identified by numbers.  What the server does to the world is recorded in its
  state: the bytes each socket accepted (\<open>wire\<close>), the sockets closed, the calls of the
  logger.  What the world does to the server is read from the state as well: \<open>net\<close> gives, for
  each socket, the outcomes of its next calls of \<open>sock.send\<close> (after the listed outcomes the
  socket accepts whatever it is offered), and \<open>ticks\<close> counts the readings of the clock.
\<close>

type_synonym sock = nat

datatype send_result = Sent nat | EAGAIN string | Socket_error string

datatype log_level = Log_debug | Log_info | Log_warn | Log_error

text \<open>
  Modelled from the spec: a sampling strategy of \<open>sampling.py\<close>, which is not among the
  sources: ``an association (client, sensor, kind, kind-params)''.  \<open>sid\<close> is the identity of
  the strategy object.
\<close>

record strategy =
  sid :: nat
  owner :: sock
  target :: string
  kind :: string
  kind_params :: "string list"

record server =
  tb_limit :: nat
  socks :: "sock list"
  waiting_chunks :: "sock \<rightharpoonup> string"
  sock_locks :: "sock \<rightharpoonup> unit"
  sensors :: "string \<rightharpoonup> sensor"
  strategies :: "sock \<rightharpoonup> (string \<times> strategy) list"
  reactor :: "strategy set"
  next_sid :: nat
  net :: "sock \<Rightarrow> send_result list"
  wire :: "sock \<Rightarrow> string"
  closed :: "sock set"
  logged :: "(log_level \<times> string) list"
  ticks :: nat

text \<open>
  The Python runtime and library, as far as the server uses them:
  \<open>traceback.format_exception\<close> with its limit on the number of stack entries,
  \<open>sock.getpeername()\<close> already formatted (\<open>None\<close> when it raises \<open>socket.error\<close>), the
  readings of \<open>time.time()\<close> already formatted as \<open>str(int(t * 1000.0))\<close>, and the formatted
  reading of a sensor (\<open>Sensor.read_formatted\<close>, which rests on \<open>kattypes.py\<close>).
\<close>

record runtime =
  format_exception :: "exn \<Rightarrow> nat \<Rightarrow> string list"
  getpeername :: "sock \<Rightarrow> string option"
  time_ms :: "nat \<Rightarrow> string"
  read_formatted :: "sensor \<Rightarrow> exn + (string \<times> string \<times> string)"

text \<open>What a request, inform or reply handler does: it returns an object or raises.\<close>

datatype handler_result = Returns message | Returns_other | Raises exn

type_synonym handler = "server \<Rightarrow> sock \<Rightarrow> message \<Rightarrow> handler_result \<times> server"

text \<open>
  The handler tables that \<open>DeviceMetaclass\<close> collects: command name, docstring and method.
  A table is a Python dictionary, here a list of entries with distinct names.
\<close>

record handlers =
  request_handlers :: "(string \<times> string \<times> handler) list"
  inform_handlers :: "(string \<times> string \<times> handler) list"
  reply_handlers :: "(string \<times> string \<times> handler) list"

definition log_call :: "log_level \<Rightarrow> string \<Rightarrow> server \<Rightarrow> server" where
  "log_call lvl txt s = s\<lparr>logged := logged s @ [(lvl, txt)]\<rparr>"

text \<open>Sequencing of two steps, the second skipped when the first raises.\<close>

definition and_then ::
    "(exn + 'a) \<times> server \<Rightarrow> ('a \<Rightarrow> server \<Rightarrow> (exn + 'b) \<times> server) \<Rightarrow> (exn + 'b) \<times> server" where
  "and_then r f = (case r of (Inl e, s) \<Rightarrow> (Inl e, s) | (Inr x, s) \<Rightarrow> f x s)"

text \<open>\<open>Message.request\<close>, \<open>Message.reply\<close> and \<open>Message.inform\<close>.\<close>

definition Message_request :: "string \<Rightarrow> string list \<Rightarrow> exn + message" where
  "Message_request n args = Message_init REQUEST n args"

definition Message_reply :: "string \<Rightarrow> string list \<Rightarrow> exn + message" where
  "Message_reply n args = Message_init REPLY n args"

definition Message_inform :: "string \<Rightarrow> string list \<Rightarrow> exn + message" where
  "Message_inform n args = Message_init INFORM n args"



text \<open>
  \<open>DeviceServerBase.remove_socket\<close>.  \<open>del d[k]\<close> raises \<open>KeyError\<close> for a missing key.
\<close>

definition remove_socket :: "server \<Rightarrow> sock \<Rightarrow> (exn + unit) \<times> server" where
  "remove_socket s sock =
     (let s1 = s\<lparr>closed := insert sock (closed s)\<rparr> in
      if sock \<in> set (socks s1) then
        (let s2 = s1\<lparr>socks := remove1 sock (socks s1)\<rparr> in
         if waiting_chunks s2 sock = None then (Inl KeyError, s2)
         else (let s3 = s2\<lparr>waiting_chunks := (waiting_chunks s2)(sock := None)\<rparr> in
               if sock_locks s3 sock = None then (Inl KeyError, s3)
               else (Inr (), s3\<lparr>sock_locks := (sock_locks s3)(sock := None)\<rparr>)))
      else (Inr (), s1))"

text \<open>\<open>DeviceServerBase.get_sockets\<close>.\<close>

definition get_sockets :: "server \<Rightarrow> sock list" where
  "get_sockets s = socks s"

text \<open>
  Modelled from the spec: \<open>SampleReactor.remove_strategy\<close> of \<open>sampling.py\<close>: ``under the
  mutex, call s.detach() and drop s'', where \<open>detach\<close> deregisters the strategy as an observer
  of its sensor.
\<close>

definition reactor_remove_strategy :: "server \<Rightarrow> strategy \<Rightarrow> server" where
  "reactor_remove_strategy s st =
     s\<lparr>sensors := (case sensors s (target st) of
                      None \<Rightarrow> sensors s
                    | Some sn \<Rightarrow> (sensors s)(target st \<mapsto> detach (sid st) sn)),
       reactor := reactor s - {st}\<rparr>"

text \<open>
  The loop of \<open>send_message\<close> over \<open>sock.send\<close>: the outcomes still to come, the data still
  to send and the text of the exception bound to \<open>e\<close>, if one is.  It returns whether the
  send failed, \<open>e\<close>, the bytes the socket accepted and the outcomes left.
\<close>

fun send_loop ::
    "send_result list \<Rightarrow> string \<Rightarrow> string option \<Rightarrow> bool \<times> string option \<times> string \<times> send_result list" where
  "send_loop script [] e = (False, e, [], script)"
| "send_loop [] (c # cs) e = (False, e, c # cs, [])"
| "send_loop (Sent n # script) (c # cs) e =
     (if n = 0 then (True, e, [], script)
      else (case send_loop script (drop n (c # cs)) e of
              (failed, e', out, rest) \<Rightarrow> (failed, e', take n (c # cs) @ out, rest)))"
| "send_loop (EAGAIN txt # script) (c # cs) e = send_loop script (c # cs) (Some txt)"
| "send_loop (Socket_error txt # script) (c # cs) e = (True, Some txt, [], script)"

definition client_name :: "runtime \<Rightarrow> sock \<Rightarrow> string" where
  "client_name R sock = (case getpeername R sock of Some n \<Rightarrow> n | None \<Rightarrow> ''<disconnected client>'')"

text \<open>
  The first part of \<open>DeviceServer.on_client_disconnect\<close>: the strategies of the client are
  taken out of the table and removed from the reactor.
\<close>

definition drop_strategies :: "server \<Rightarrow> sock \<Rightarrow> server" where
  "drop_strategies s sock =
     (case strategies s sock of
        None \<Rightarrow> s
      | Some sts \<Rightarrow>
          fold (\<lambda>(sensor, st) s'. reactor_remove_strategy s' st) sts
               (s\<lparr>strategies := (strategies s)(sock := None)\<rparr>))"

text \<open>
  \<open>DeviceServerBase.send_message\<close>, \<open>DeviceServerBase.inform\<close> and
  \<open>DeviceServer.on_client_disconnect\<close>, which call each other: a failed send disconnects the
  client with \<open>sock_valid = False\<close>, and a disconnect with \<open>sock_valid = True\<close> sends a last
  inform.  In \<open>send_message\<close> the name \<open>e\<close> is bound only by an \<open>except socket.error, e\<close>
  clause; reading it unbound raises \<open>UnboundLocalError\<close>.
\<close>

function send_message :: "runtime \<Rightarrow> server \<Rightarrow> sock \<Rightarrow> message \<Rightarrow> (exn + unit) \<times> server"
  and inform :: "runtime \<Rightarrow> server \<Rightarrow> sock \<Rightarrow> message \<Rightarrow> (exn + unit) \<times> server"
  and on_client_disconnect ::
    "runtime \<Rightarrow> server \<Rightarrow> sock \<Rightarrow> string \<Rightarrow> bool \<Rightarrow> (exn + unit) \<times> server" where
  "send_message R s sock msg =
     (case Message_str msg of
        Inl ex \<Rightarrow> (Inl ex, s)
      | Inr line \<Rightarrow>
          (let data = line @ [LF];
               s1 = log_call Log_debug data s
           in case sock_locks s1 sock of
                None \<Rightarrow>
                  (Inr (), log_call Log_warn
                     (''Attempt to send to a socket '' @ client_name R sock
                        @ '' which is no longer a client.'') s1)
              | Some lock \<Rightarrow>
                  (case send_loop (net s1 sock) data None of
                     (send_failed, e, out, rest) \<Rightarrow>
                       (let s2 = s1\<lparr>net := (net s1)(sock := rest),
                                    wire := (wire s1)(sock := wire s1 sock @ out)\<rparr>
                        in if send_failed then
                             (case e of
                                None \<Rightarrow> (Inl UnboundLocalError, s2)
                              | Some txt \<Rightarrow>
                                  (let failure = ''Failed to send message to client ''
                                         @ client_name R sock @ '' ('' @ txt @ '')'';
                                       s3 = log_call Log_error failure s2
                                   in and_then (remove_socket s3 sock)
                                        (\<lambda>u s4. on_client_disconnect R s4 sock failure False)))
                           else (Inr (), s2)))))"
| "inform R s sock msg =
     (if mtype msg \<noteq> INFORM then (Inl AssertionError, s) else send_message R s sock msg)"
| "on_client_disconnect R s sock reason sock_valid =
     (let s1 = drop_strategies s sock
      in if sock_valid then
           (case Message_inform ''disconnect'' [reason] of
              Inl ex \<Rightarrow> (Inl ex, s1)
            | Inr m \<Rightarrow> inform R s1 sock m)
         else (Inr (), s1))"
  by pat_completeness auto
termination
  by (relation "measure (\<lambda>x. case x of
                   Inl (R, s, sock, msg) \<Rightarrow> 1
                 | Inr (Inl (R, s, sock, msg)) \<Rightarrow> 2
                 | Inr (Inr (R, s, sock, reason, sock_valid)) \<Rightarrow> if sock_valid then 3 else 0)")
     auto

text \<open>\<open>DeviceServerBase.mass_inform\<close>; the listening socket is not in the client list.\<close>

fun inform_all :: "runtime \<Rightarrow> sock list \<Rightarrow> message \<Rightarrow> server \<Rightarrow> (exn + unit) \<times> server" where
  "inform_all R [] msg s = (Inr (), s)"
| "inform_all R (sock # rest) msg s = and_then (inform R s sock msg) (\<lambda>u s'. inform_all R rest msg s')"

definition mass_inform :: "runtime \<Rightarrow> server \<Rightarrow> message \<Rightarrow> (exn + unit) \<times> server" where
  "mass_inform R s msg =
     (if mtype msg \<noteq> INFORM then (Inl AssertionError, s) else inform_all R (socks s) msg s)"

text \<open>
  The formatted traceback of an exception caught by the server:
  \<open>"\n".join(traceback.format_exception(e_type, e_value, trace, self._tb_limit))\<close>.
\<close>

definition traceback_reason :: "runtime \<Rightarrow> server \<Rightarrow> exn \<Rightarrow> string" where
  "traceback_reason R s ex = join [LF] (format_exception R ex (tb_limit s))"

text \<open>
  \<open>DeviceServerBase.handle_request\<close>.  The two assertions on the reply are inside the
  \<open>try\<close>, so that a reply of the wrong kind or name ends in the clause for other exceptions;
  an object without the attributes of a message ends there too.
\<close>

definition fail_with_traceback ::
    "runtime \<Rightarrow> server \<Rightarrow> sock \<Rightarrow> message \<Rightarrow> exn \<Rightarrow> (exn + unit) \<times> server" where
  "fail_with_traceback R s sock msg ex =
     (let reason = traceback_reason R s ex;
          s1 = log_call Log_error (''Request '' @ name msg @ '' FAIL: '' @ reason) s
      in case Message_reply (name msg) [''fail'', reason] of
           Inl ex' \<Rightarrow> (Inl ex', s1)
         | Inr reply \<Rightarrow> send_message R s1 sock reply)"

definition handle_request ::
    "handlers \<Rightarrow> runtime \<Rightarrow> server \<Rightarrow> sock \<Rightarrow> message \<Rightarrow> (exn + unit) \<times> server" where
  "handle_request H R s sock msg =
     (case map_of (request_handlers H) (name msg) of
        Some (doc, method) \<Rightarrow>
          (case method s sock msg of
             (Returns reply, s1) \<Rightarrow>
               (if mtype reply \<noteq> REPLY then fail_with_traceback R s1 sock msg AssertionError
                else if name reply \<noteq> name msg then fail_with_traceback R s1 sock msg AssertionError
                else send_message R (log_call Log_info (name msg @ '' OK'') s1) sock reply)
           | (Returns_other, s1) \<Rightarrow>
               fail_with_traceback R s1 sock msg (OtherException ''AttributeError'')
           | (Raises AsyncReply, s1) \<Rightarrow>
               (Inr (), log_call Log_info (name msg @ '' ASYNC OK'') s1)
           | (Raises (FailReply reason), s1) \<Rightarrow>
               (let s2 = log_call Log_error (''Request '' @ name msg @ '' FAIL: '' @ reason) s1
                in case Message_reply (name msg) [''fail'', reason] of
                     Inl ex \<Rightarrow> (Inl ex, s2)
                   | Inr reply \<Rightarrow> send_message R s2 sock reply)
           | (Raises ex, s1) \<Rightarrow> fail_with_traceback R s1 sock msg ex)
      | None \<Rightarrow>
          (let s1 = log_call Log_error (name msg @ '' INVALID: Unknown request.'') s
           in case Message_reply (name msg) [''invalid'', ''Unknown request.''] of
                Inl ex \<Rightarrow> (Inl ex, s1)
              | Inr reply \<Rightarrow> send_message R s1 sock reply))"





subsection \<open>Inbound framing (DeviceServerBase.handle_chunk)\<close>









subsection \<open>The help request (DeviceServer.request_help)\<close>

text \<open>\<open>str(n)\<close> for a natural number.\<close>

fun str_nat :: "nat \<Rightarrow> string" where
  "str_nat n =
     (if n < 10 then [char_of (48 + n)] else str_nat (n div 10) @ [char_of (48 + n mod 10)])"

declare str_nat.simps [simp del]

text \<open>\<open>s.strip()\<close>: space, tab, line feed, carriage return, vertical tab and form feed go.\<close>

definition isspace :: "char \<Rightarrow> bool" where
  "isspace c = (c = SPACE \<or> c = TAB \<or> c = LF \<or> c = CR \<or> c = CHR 0x0B \<or> c = CHR 0x0C)"

definition strip :: "string \<Rightarrow> string" where
  "strip s = rev (dropWhile isspace (rev (dropWhile isspace s)))"

text \<open>
  The loop of \<open>request_help\<close> over \<open>sorted(self._request_handlers.items())\<close>; an entry is the
  name of a request and the docstring of its method.
\<close>

fun help_informs ::
    "runtime \<Rightarrow> sock \<Rightarrow> (string \<times> string) list \<Rightarrow> server \<Rightarrow> (exn + unit) \<times> server" where
  "help_informs R sock [] s = (Inr (), s)"
| "help_informs R sock ((nm, doc) # rest) s =
     (case Message_inform ''help'' [nm, doc] of
        Inl ex \<Rightarrow> (Inl ex, s)
      | Inr m \<Rightarrow> and_then (inform R s sock m) (\<lambda>u s'. help_informs R sock rest s'))"

text \<open>The result of a method that returns the message it has built.\<close>

definition returning :: "exn + message \<Rightarrow> server \<Rightarrow> handler_result \<times> server" where
  "returning r s = (case r of Inl ex \<Rightarrow> (Raises ex, s) | Inr m \<Rightarrow> (Returns m, s))"

text \<open>
  \<open>DeviceServer.request_help\<close>.  \<open>docs\<close> lists the names and docstrings of
  \<open>self._request_handlers\<close>, a dictionary: the names are distinct, and sorting its items
  sorts them by name.
\<close>

definition request_help :: "(string \<times> string) list \<Rightarrow> runtime \<Rightarrow> handler" where
  "request_help docs R s sock msg =
     (if arguments msg = [] then
        (case help_informs R sock (sort_key fst docs) s of
           (Inl ex, s1) \<Rightarrow> (Raises ex, s1)
         | (Inr u, s1) \<Rightarrow> returning (Message_reply ''help'' [''ok'', str_nat (length docs)]) s1)
      else
        (let nm = hd (arguments msg) in
         case map_of docs nm of
           Some doc \<Rightarrow>
             (case Message_inform ''help'' [nm, strip doc] of
                Inl ex \<Rightarrow> (Raises ex, s)
              | Inr m \<Rightarrow>
                  (case inform R s sock m of
                     (Inl ex, s1) \<Rightarrow> (Raises ex, s1)
                   | (Inr u, s1) \<Rightarrow> returning (Message_reply ''help'' [''ok'', ''1'']) s1))
         | None \<Rightarrow> returning (Message_reply ''help'' [''fail'', ''Unknown request method.'']) s))"

text \<open>\<open>DeviceServer.request_watchdog\<close>.\<close>

definition request_watchdog :: handler where
  "request_watchdog s sock msg = returning (Message_reply ''watchdog'' [''ok'']) s"

subsection \<open>What a client sees\<close>






text \<open>A runtime and a server with client 1 connected, for examples.\<close>

definition test_runtime :: runtime where
  "test_runtime =
     \<lparr>format_exception = (\<lambda>ex limit. take limit [''  File katcp.py, in parse'' @ [LF]]),
      getpeername = (\<lambda>sock. None),
      time_ms = (\<lambda>n. ''1244631611415''),
      read_formatted = (\<lambda>sn. Inr (''12345000'', ''nominal'', ''3''))\<rparr>"

definition test_server :: server where
  "test_server =
     \<lparr>tb_limit = 20, socks = [1], waiting_chunks = [1 \<mapsto> []], sock_locks = [1 \<mapsto> ()],
      sensors = [''an.int'' \<mapsto> an_int], strategies = [1 \<mapsto> []], reactor = {}, next_sid = 0,
      net = (\<lambda>sock. []), wire = (\<lambda>sock. []), closed = {}, logged = [], ticks = 0\<rparr>"



definition test_docs :: "(string \<times> string) list" where
  "test_docs = [(''watchdog'', ''Check that the server is still alive.''),
                (''help'', ''Return help on the available requests.'')]"

definition test_handlers :: handlers where
  "test_handlers =
     \<lparr>request_handlers =
        [(''watchdog'', ''Check that the server is still alive.'', request_watchdog),
         (''help'', ''Return help on the available requests.'', request_help test_docs test_runtime)],
      inform_handlers = [], reply_handlers = []\<rparr>"



text \<open>The names and docstrings of a table of request handlers.\<close>

definition docs_of :: "(string \<times> string \<times> handler) list \<Rightarrow> (string \<times> string) list" where
  "docs_of table = map (\<lambda>(nm, doc, method). (nm, doc)) table"

section \<open>Properties of the wire codec\<close>

lemmas char_defs = BACKSLASH_def SPACE_def NUL_def LF_def CR_def ESC_def TAB_def

lemma unescape_sub_plain:
  "c \<noteq> BACKSLASH \<Longrightarrow>
   unescape_sub (c # rest) = (case unescape_sub rest of Inl e \<Rightarrow> Inl e | Inr r \<Rightarrow> Inr (c # r))"
  by (cases rest) simp_all

lemma unescape_sub_escaped:
  "ESCAPE_LOOKUP d = Some r \<Longrightarrow> d \<noteq> LF \<Longrightarrow>
   unescape_sub (BACKSLASH # d # rest) =
     (case unescape_sub rest of Inl e \<Rightarrow> Inl e | Inr r' \<Rightarrow> Inr (r @ r'))"
  by (simp add: unescape_match_def)

lemma escape_match_cases:
  "ESCAPE_RE c \<Longrightarrow> \<exists>d. escape_match c = Inr [BACKSLASH, d] \<and> ESCAPE_LOOKUP d = Some [c]
      \<and> d \<noteq> LF \<and> \<not> SPECIAL_RE d"
  unfolding ESCAPE_RE_def escape_match_def REVERSE_ESCAPE_LOOKUP_def ESCAPE_LOOKUP_def
     SPECIAL_RE_def char_defs
  by auto

lemma not_special_backslash: "\<not> SPECIAL_RE BACKSLASH"
  by (simp add: SPECIAL_RE_def char_defs)

lemma escape_sub_props:
  "\<exists>r. escape_sub x = Inr r \<and> list_all (\<lambda>c. \<not> SPECIAL_RE c) r \<and> unescape_sub r = Inr x
       \<and> (r = [] \<longleftrightarrow> x = [])"
proof (induction x)
  case Nil
  show ?case by simp
next
  case (Cons c cs)
  then obtain r where r: "escape_sub cs = Inr r" "list_all (\<lambda>c. \<not> SPECIAL_RE c) r"
     "unescape_sub r = Inr cs" by blast
  show ?case
  proof (cases "ESCAPE_RE c")
    case True
    from escape_match_cases [OF True] obtain d where d: "escape_match c = Inr [BACKSLASH, d]"
      "ESCAPE_LOOKUP d = Some [c]" "d \<noteq> LF" "\<not> SPECIAL_RE d" by blast
    show ?thesis using True d r not_special_backslash
      by (simp add: unescape_match_def)
  next
    case False
    then have "c \<noteq> BACKSLASH" "\<not> SPECIAL_RE c" by (auto simp: ESCAPE_RE_def SPECIAL_RE_def)
    then show ?thesis using False r by (simp add: unescape_sub_plain)
  qed
qed


lemma special_of_whitespace: "WHITESPACE_RE c \<Longrightarrow> SPECIAL_RE c"
  by (auto simp: WHITESPACE_RE_def SPECIAL_RE_def)

lemma find_None_list_all: "list_all (\<lambda>c. \<not> P c) xs \<Longrightarrow> find P xs = None"
  by (induction xs) auto

text \<open>An escaped argument, as written on the wire, parses back to the argument.\<close>

lemma escaped_arg_props:
  "\<exists>r. escape_sub x = Inr r \<and> or_empty r \<noteq> [] \<and> list_all (\<lambda>c. \<not> SPECIAL_RE c) (or_empty r)
       \<and> parse_arg (or_empty r) = Inr x"
proof -
  from escape_sub_props [of x] obtain r where r: "escape_sub x = Inr r"
    "list_all (\<lambda>c. \<not> SPECIAL_RE c) r" "unescape_sub r = Inr x" "r = [] \<longleftrightarrow> x = []" by blast
  show ?thesis
  proof (cases "r = []")
    case True
    have "\<not> SPECIAL_RE (CHR ''@'')" by (simp add: SPECIAL_RE_def char_defs)
    moreover have "ESCAPE_LOOKUP (CHR ''@'') = Some []" by (simp add: ESCAPE_LOOKUP_def char_defs)
    moreover have "CHR ''@'' \<noteq> LF" by (simp add: char_defs)
    ultimately show ?thesis using True r not_special_backslash
      by (simp add: or_empty_def parse_arg_def unescape_match_def)
  next
    case False
    then show ?thesis using r by (simp add: or_empty_def parse_arg_def find_None_list_all)
  qed
qed

lemma map_escape_sub_props:
  "\<exists>rs. map_exn escape_sub xs = Inr rs \<and> length rs = length xs
     \<and> list_all (\<lambda>e. e \<noteq> [] \<and> list_all (\<lambda>c. \<not> SPECIAL_RE c) e) (map or_empty rs)
     \<and> map_exn parse_arg (map or_empty rs) = Inr xs"
proof (induction xs)
  case Nil
  show ?case by simp
next
  case (Cons x xs)
  from escaped_arg_props [of x] obtain r where "escape_sub x = Inr r" "or_empty r \<noteq> []"
    "list_all (\<lambda>c. \<not> SPECIAL_RE c) (or_empty r)" "parse_arg (or_empty r) = Inr x" by blast
  moreover from Cons obtain rs where "map_exn escape_sub xs = Inr rs" "length rs = length xs"
    "list_all (\<lambda>e. e \<noteq> [] \<and> list_all (\<lambda>c. \<not> SPECIAL_RE c) e) (map or_empty rs)"
    "map_exn parse_arg (map or_empty rs) = Inr xs" by blast
  ultimately show ?case by simp
qed

subsection \<open>Splitting a serialized line\<close>

lemma whitespace_split_token:
  "list_all (\<lambda>c. \<not> WHITESPACE_RE c) t \<Longrightarrow>
   whitespace_split cur (t @ rest) = whitespace_split (cur @ t) rest"
  by (induction t arbitrary: cur) simp_all

lemma dropWhile_token:
  "e \<noteq> [] \<Longrightarrow> list_all (\<lambda>c. \<not> P c) e \<Longrightarrow> dropWhile P (e @ rest) = e @ rest"
  by (cases e) simp_all

lemma whitespace_split_fields:
  "list_all (\<lambda>e. e \<noteq> [] \<and> list_all (\<lambda>c. \<not> WHITESPACE_RE c) e) es \<Longrightarrow>
   whitespace_split cur (concat (map (\<lambda>e. SPACE # e) es)) = cur # es"
proof (induction es arbitrary: cur)
  case Nil
  show ?case by simp
next
  case (Cons e es)
  then have e: "e \<noteq> []" "list_all (\<lambda>c. \<not> WHITESPACE_RE c) e" by simp_all
  have "whitespace_split cur (concat (map (\<lambda>e. SPACE # e) (e # es)))
      = cur # whitespace_split [] (e @ concat (map (\<lambda>e. SPACE # e) es))"
    using e by (simp add: WHITESPACE_RE_def dropWhile_token)
  also have "\<dots> = cur # whitespace_split e (concat (map (\<lambda>e. SPACE # e) es))"
    using whitespace_split_token [OF e(2), of "[]"] by simp
  also have "\<dots> = cur # e # es" using Cons by simp
  finally show ?case .
qed

lemma join_concat: "es \<noteq> [] \<Longrightarrow> sep @ join sep es = concat (map (\<lambda>e. sep @ e) es)"
  by (induction sep es rule: join.induct) simp_all

lemma join_space: "es \<noteq> [] \<Longrightarrow> [SPACE] @ join [SPACE] es = concat (map (\<lambda>e. SPACE # e) es)"
  using join_concat [of es "[SPACE]"] by simp

lemma isalnum_not_whitespace: "isalnum c \<or> c = CHR ''-'' \<Longrightarrow> \<not> WHITESPACE_RE c"
  by (auto simp: isalnum_def isalpha_def isdigit_def WHITESPACE_RE_def char_defs Let_def)

lemma name_no_whitespace:
  assumes "str_isalnum (remove_dashes n)"
  shows "list_all (\<lambda>c. \<not> WHITESPACE_RE c) n"
proof -
  have "list_all isalnum (filter (\<lambda>c. c \<noteq> CHR ''-'') n)"
    using assms by (simp add: str_isalnum_def remove_dashes_def)
  then have "\<forall>c \<in> set n. isalnum c \<or> c = CHR ''-''"
    by (auto simp: list_all_iff)
  then show ?thesis using isalnum_not_whitespace by (auto simp: list_all_iff)
qed

lemma type_symbol_roundtrip:
  "TYPE_SYMBOLS t = Some c \<Longrightarrow> TYPE_SYMBOL_LOOKUP c = Some t \<and> \<not> WHITESPACE_RE c"
  by (auto simp: TYPE_SYMBOLS_def TYPE_SYMBOL_LOOKUP_def REQUEST_def REPLY_def INFORM_def
      WHITESPACE_RE_def char_defs split: if_splits)

lemma split_serialized:
  assumes "\<not> WHITESPACE_RE c" "list_all (\<lambda>c. \<not> WHITESPACE_RE c) n"
    and "list_all (\<lambda>e. e \<noteq> [] \<and> list_all (\<lambda>c. \<not> WHITESPACE_RE c) e) es"
  shows "whitespace_split [] (c # n @ concat (map (\<lambda>e. SPACE # e) es)) = (c # n) # es"
proof -
  have "whitespace_split [] ((c # n) @ concat (map (\<lambda>e. SPACE # e) es))
      = whitespace_split ([] @ (c # n)) (concat (map (\<lambda>e. SPACE # e) es))"
    using assms(1,2) by (intro whitespace_split_token) simp
  then show ?thesis using whitespace_split_fields [OF assms(3)] by simp
qed

lemma last_nonempty: "x \<noteq> [] \<Longrightarrow> list_all (\<lambda>e. e \<noteq> []) xs \<Longrightarrow> last (x # xs) \<noteq> []"
  by (induction xs arbitrary: x) auto

text \<open>
  Claim C1 (codec round trip).  Every message that \<open>Message.__init__\<close> accepts, whatever its
  kind, valid name and list of argument strings (empty arguments and arguments holding NUL, LF,
  CR, ESC, TAB, space or backslash included), is serialized by \<open>Message.__str__\<close> without an
  exception, and \<open>MessageParser.parse\<close> maps the serialized line back to a message with the
  same kind, name and arguments.
\<close>

theorem parse_str_roundtrip:
  assumes "Message_init t n args = Inr m"
  shows "\<exists>line. Message_str m = Inr line \<and> parse line = Inr m"
proof -
  from assms have m: "m = \<lparr>mtype = t, name = n, arguments = args\<rparr>"
    and t: "TYPE_SYMBOLS t \<noteq> None" and n: "n \<noteq> []" "str_isalnum (remove_dashes n)" "isalpha (hd n)"
    by (auto simp: Message_init_def split: if_splits)
  from t obtain c where c: "TYPE_SYMBOLS t = Some c" by blast
  then have look: "TYPE_SYMBOL_LOOKUP c = Some t" and cws: "\<not> WHITESPACE_RE c"
    using type_symbol_roundtrip by blast+
  have nws: "list_all (\<lambda>c. \<not> WHITESPACE_RE c) n" using n(2) by (rule name_no_whitespace)
  from map_escape_sub_props [of args] obtain rs where rs: "map_exn escape_sub args = Inr rs"
    "length rs = length args"
    "list_all (\<lambda>e. e \<noteq> [] \<and> list_all (\<lambda>c. \<not> SPECIAL_RE c) e) (map or_empty rs)"
    "map_exn parse_arg (map or_empty rs) = Inr args" by blast
  let ?es = "map or_empty rs"
  have es: "list_all (\<lambda>e. e \<noteq> [] \<and> list_all (\<lambda>c. \<not> WHITESPACE_RE c) e) ?es"
    using rs(3) special_of_whitespace by (auto simp: list_all_iff)
  let ?line = "c # n @ concat (map (\<lambda>e. SPACE # e) ?es)"
  have str: "Message_str m = Inr ?line"
  proof (cases "args = []")
    case True
    then show ?thesis using rs c by (simp add: Message_str_def m)
  next
    case False
    then have "?es \<noteq> []" using rs(2) by auto
    then show ?thesis using False rs(1) c join_space [of ?es] by (simp add: Message_str_def m)
  qed
  have parts: "whitespace_split [] ?line = (c # n) # ?es"
    using cws nws es by (rule split_serialized)
  have lst: "last ((c # n) # ?es) \<noteq> []"
    using es by (intro last_nonempty) (auto simp: list_all_iff)
  have init: "Message_init t n args = Inr m" by (rule assms)
  have "parse ?line = Inr m"
    using look parts lst rs(4) init by (simp add: parse_def Let_def)
  with str show ?thesis by blast
qed

theorem parse_str_roundtrip_witness:
  "Message_init REQUEST ''set-x9'' [''a b'', [], [BACKSLASH, LF, NUL, CR, ESC, TAB]]
     = Inr \<lparr>mtype = REQUEST, name = ''set-x9'',
            arguments = [''a b'', [], [BACKSLASH, LF, NUL, CR, ESC, TAB]]\<rparr>
   \<and> (\<exists>line. Message_str \<lparr>mtype = REQUEST, name = ''set-x9'',
            arguments = [''a b'', [], [BACKSLASH, LF, NUL, CR, ESC, TAB]]\<rparr> = Inr line
        \<and> parse line = Inr \<lparr>mtype = REQUEST, name = ''set-x9'',
            arguments = [''a b'', [], [BACKSLASH, LF, NUL, CR, ESC, TAB]]\<rparr>)"
proof -
  have init: "Message_init REQUEST ''set-x9'' [''a b'', [], [BACKSLASH, LF, NUL, CR, ESC, TAB]]
     = Inr \<lparr>mtype = REQUEST, name = ''set-x9'',
            arguments = [''a b'', [], [BACKSLASH, LF, NUL, CR, ESC, TAB]]\<rparr>"
    by (simp add: Message_init_def TYPE_SYMBOLS_def REQUEST_def str_isalnum_def remove_dashes_def
        isalnum_def isalpha_def isdigit_def)
  from parse_str_roundtrip [OF init] init show ?thesis by blast
qed

subsection \<open>The parser rejects exactly the malformed lines\<close>

lemma not_whitespace_conv: "(\<lambda>x. x \<noteq> SPACE \<and> x \<noteq> TAB) = (\<lambda>x. \<not> WHITESPACE_RE x)"
  by (simp add: WHITESPACE_RE_def fun_eq_iff)

lemma whitespace_split_nonempty: "whitespace_split cur s \<noteq> []"
  by (induction cur s rule: whitespace_split.induct) auto

lemma line_words_dropWhile: "line_words (dropWhile WHITESPACE_RE s) = line_words s"
  by (induction s) (auto simp: WHITESPACE_RE_def)

lemma line_words_token:
  assumes "list_all (\<lambda>c. \<not> WHITESPACE_RE c) cur" "cur \<noteq> []" "s = [] \<or> WHITESPACE_RE (hd s)"
  shows "line_words (cur @ s) = cur # line_words s"
proof -
  from assms(2) obtain a as where cur: "cur = a # as" by (cases cur) auto
  have a: "\<not> WHITESPACE_RE a" and as: "\<forall>x \<in> set as. \<not> WHITESPACE_RE x"
    using assms(1) cur by (auto simp: list_all_iff)
  have s: "takeWhile (\<lambda>x. \<not> WHITESPACE_RE x) s = []" "dropWhile (\<lambda>x. \<not> WHITESPACE_RE x) s = s"
    using assms(3) by (cases s; auto)+
  have "takeWhile (\<lambda>x. \<not> WHITESPACE_RE x) (as @ s) = as"
    using as s by (simp add: takeWhile_append2)
  moreover have "dropWhile (\<lambda>x. \<not> WHITESPACE_RE x) (as @ s) = s"
    using as s by (simp add: dropWhile_append2)
  ultimately show ?thesis using a
    by (simp add: cur not_whitespace_conv) (simp add: WHITESPACE_RE_def)
qed

lemma split_words:
  "list_all (\<lambda>c. \<not> WHITESPACE_RE c) cur \<Longrightarrow> cur \<noteq> [] \<or> s = [] \<or> \<not> WHITESPACE_RE (hd s) \<Longrightarrow>
   (let parts = whitespace_split cur s in if last parts = [] then butlast parts else parts)
     = line_words (cur @ s)"
proof (induction cur s rule: whitespace_split.induct)
  case (1 cur)
  show ?case
  proof (cases "cur = []")
    case True
    then show ?thesis by simp
  next
    case False
    then show ?thesis using line_words_token [of cur "[]"] 1 by simp
  qed
next
  case (2 cur c cs)
  show ?case
  proof (cases "WHITESPACE_RE c")
    case True
    then have cur: "cur \<noteq> []" using 2(4) by simp
    let ?X = "whitespace_split [] (dropWhile WHITESPACE_RE cs)"
    have X: "?X \<noteq> []" by (rule whitespace_split_nonempty)
    have "dropWhile WHITESPACE_RE cs = [] \<or> \<not> WHITESPACE_RE (hd (dropWhile WHITESPACE_RE cs))"
      using hd_dropWhile [of WHITESPACE_RE cs] by blast
    then have ih: "(if last ?X = [] then butlast ?X else ?X) = line_words (dropWhile WHITESPACE_RE cs)"
      using 2(1) [OF True] by (simp add: Let_def)
    have "line_words (cur @ c # cs) = cur # line_words (c # cs)"
      using line_words_token [of cur "c # cs"] 2(3) cur True by simp
    also have "line_words (c # cs) = line_words cs" using True by (simp add: WHITESPACE_RE_def)
    finally have rhs: "line_words (cur @ c # cs) = cur # line_words cs" .
    have lhs: "(let parts = whitespace_split cur (c # cs)
                in if last parts = [] then butlast parts else parts)
               = cur # (if last ?X = [] then butlast ?X else ?X)"
      using True X by (simp add: Let_def)
    show ?thesis unfolding lhs ih rhs line_words_dropWhile ..
  next
    case False
    then show ?thesis using 2(2) [OF False] 2(3) by simp
  qed
qed

lemma type_symbol_lookup_cases:
  "TYPE_SYMBOL_LOOKUP b = Some t \<Longrightarrow> \<not> WHITESPACE_RE b \<and> TYPE_SYMBOLS t \<noteq> None"
  by (auto simp: TYPE_SYMBOLS_def TYPE_SYMBOL_LOOKUP_def REQUEST_def REPLY_def INFORM_def
      WHITESPACE_RE_def BACKSLASH_def SPACE_def NUL_def LF_def CR_def ESC_def TAB_def split: if_splits)

lemma type_symbol_lookup_None:
  "TYPE_SYMBOL_LOOKUP b = None \<longleftrightarrow> b \<notin> set [CHR ''?'', CHR ''!'', CHR ''#'']"
  by (auto simp: TYPE_SYMBOL_LOOKUP_def)

lemma parse_unfold:
  assumes "TYPE_SYMBOL_LOOKUP b = Some t"
  shows "parse (b # rest) =
     (case map_exn parse_arg (argument_tokens (b # rest)) of
        Inl e \<Rightarrow> Inl e
      | Inr args \<Rightarrow> Message_init t (command_name (b # rest)) args)"
proof -
  have b: "\<not> WHITESPACE_RE b" using assms type_symbol_lookup_cases by blast
  have parts: "(let parts = whitespace_split [] (b # rest)
                in if last parts = [] then butlast parts else parts) = line_words (b # rest)"
    using split_words [of "[]" "b # rest"] b by simp
  obtain w ws where w: "line_words (b # rest) = (b # w) # ws"
    using b by (auto simp: WHITESPACE_RE_def)
  show ?thesis
    using assms parts w unfolding parse_def command_name_def argument_tokens_def
    by (simp add: Let_def del: whitespace_split.simps line_words.simps cong: sum.case_cong)
qed


lemma special_bytes_conv: "c \<in> set special_bytes \<longleftrightarrow> SPECIAL_RE c"
  by (auto simp: special_bytes_def SPECIAL_RE_def)

lemma escape_alphabet_conv: "d \<in> set escape_alphabet \<longleftrightarrow> ESCAPE_LOOKUP d \<noteq> None"
  by (auto simp: escape_alphabet_def ESCAPE_LOOKUP_def)

lemma special_not_escape: "SPECIAL_RE d \<Longrightarrow> ESCAPE_LOOKUP d = None"
  by (auto simp: SPECIAL_RE_def ESCAPE_LOOKUP_def BACKSLASH_def SPACE_def NUL_def LF_def CR_def
      ESC_def TAB_def)

lemma special_bad_token: "list_ex SPECIAL_RE tok \<Longrightarrow> bad_token tok"
  unfolding bad_token_def
  by (induction tok rule: token_items.induct)
     (auto simp: special_bytes_conv escape_alphabet_conv special_not_escape not_special_backslash)

lemma unescape_sub_error:
  "unescape_sub tok = Inl x \<Longrightarrow> \<exists>e. x = KatcpSyntaxError e"
  by (induction tok arbitrary: x rule: unescape_sub.induct)
     (auto simp: unescape_match_def split: if_splits sum.splits option.splits)

lemma unescape_sub_bad_token:
  "\<not> list_ex SPECIAL_RE tok \<Longrightarrow> (\<exists>x. unescape_sub tok = Inl x) \<longleftrightarrow> bad_token tok"
  unfolding bad_token_def
proof (induction tok rule: unescape_sub.induct)
  case 1
  show ?case by simp
next
  case (2 c)
  then show ?case by (simp add: unescape_match_def special_bytes_conv)
next
  case (3 c d ds)
  have d: "d \<noteq> LF" using 3(4) by (auto simp: SPECIAL_RE_def)
  show ?case
  proof (cases "c = BACKSLASH")
    case True
    show ?thesis
    proof (cases "ESCAPE_LOOKUP d")
      case None
      then show ?thesis using True d by (simp add: unescape_match_def escape_alphabet_conv)
    next
      case (Some r)
      then have um: "unescape_match [d] = Inr r" by (simp add: unescape_match_def)
      have "(\<exists>x. unescape_sub ds = Inl x) = list_ex bad_item (token_items ds)"
        using 3(2) [OF True d um] 3(4) by simp
      then show ?thesis using True d um Some
        by (auto simp: escape_alphabet_conv split: sum.splits)
    qed
  next
    case False
    have "(\<exists>x. unescape_sub (d # ds) = Inl x) = list_ex bad_item (token_items (d # ds))"
      using 3(3) [OF False] 3(4) by simp
    then show ?thesis using False 3(4)
      by (auto simp: special_bytes_conv split: sum.splits)
  qed
qed

lemma find_Some_list_ex: "(\<exists>c. find P xs = Some c) \<longleftrightarrow> list_ex P xs"
  by (induction xs) auto

lemma parse_arg_error: "parse_arg tok = Inl x \<Longrightarrow> \<exists>e. x = KatcpSyntaxError e"
  by (auto simp: parse_arg_def split: option.splits dest: unescape_sub_error)

lemma parse_arg_bad_token: "(\<exists>x. parse_arg tok = Inl x) \<longleftrightarrow> bad_token tok"
proof (cases "list_ex SPECIAL_RE tok")
  case True
  then obtain c where "find SPECIAL_RE tok = Some c" using find_Some_list_ex by metis
  then show ?thesis using True special_bad_token by (simp add: parse_arg_def)
next
  case False
  then have "find SPECIAL_RE tok = None" using find_Some_list_ex [of SPECIAL_RE tok] by auto
  then show ?thesis using unescape_sub_bad_token [OF False] by (simp add: parse_arg_def)
qed

lemma map_parse_arg_error: "map_exn parse_arg ps = Inl x \<Longrightarrow> \<exists>e. x = KatcpSyntaxError e"
  by (induction ps arbitrary: x) (auto split: sum.splits dest: parse_arg_error)

lemma map_parse_arg_bad: "(\<exists>x. map_exn parse_arg ps = Inl x) \<longleftrightarrow> list_ex bad_token ps"
proof (induction ps)
  case Nil
  show ?case by simp
next
  case (Cons p ps)
  show ?case
  proof (cases "parse_arg p")
    case (Inl e)
    then show ?thesis using parse_arg_bad_token [of p] by auto
  next
    case (Inr y)
    then have "\<not> bad_token p" using parse_arg_bad_token [of p] by auto
    then show ?thesis using Inr Cons by (auto split: sum.splits)
  qed
qed

lemma Message_init_error: "Message_init t n a = Inl x \<Longrightarrow> \<exists>e. x = KatcpSyntaxError e"
  by (auto simp: Message_init_def split: if_splits)

lemma name_check_conv:
  "(n = [] \<or> \<not> str_isalnum (remove_dashes n) \<or> \<not> isalpha (hd n)) \<longleftrightarrow> bad_name n"
proof (cases n)
  case Nil
  then show ?thesis by (simp add: bad_name_def)
next
  case (Cons c cs)
  have dash: "\<not> isalpha (CHR ''-'')" by (simp add: isalpha_def)
  have all: "list_all isalnum (remove_dashes n) \<longleftrightarrow> \<not> list_ex (\<lambda>x. \<not> name_char x) n"
    by (auto simp: remove_dashes_def list_all_iff list_ex_iff name_char_def isalnum_def)
  have ne: "isalpha c \<Longrightarrow> remove_dashes n \<noteq> []"
    using dash Cons by (auto simp: remove_dashes_def)
  show ?thesis using Cons all ne by (auto simp: bad_name_def str_isalnum_def)
qed

lemma Message_init_bad_name:
  "TYPE_SYMBOLS t \<noteq> None \<Longrightarrow> (\<exists>x. Message_init t n a = Inl x) \<longleftrightarrow> bad_name n"
  using name_check_conv [of n] by (auto simp: Message_init_def)

lemma parse_error: "parse line = Inl x \<Longrightarrow> \<exists>e. x = KatcpSyntaxError e"
proof (cases line)
  case Nil
  then show "parse line = Inl x \<Longrightarrow> ?thesis" by (auto simp: parse_def)
next
  case (Cons b rest)
  assume p: "parse line = Inl x"
  show ?thesis
  proof (cases "TYPE_SYMBOL_LOOKUP b")
    case None
    then show ?thesis using p Cons by (auto simp: parse_def)
  next
    case (Some t)
    show ?thesis using p unfolding Cons parse_unfold [OF Some]
      by (auto split: sum.splits dest: map_parse_arg_error Message_init_error)
  qed
qed

lemma parse_fails_conv: "(\<exists>x. parse line = Inl x) \<longleftrightarrow> malformed line"
proof (cases line)
  case Nil
  then show ?thesis by (simp add: parse_def malformed_def)
next
  case (Cons b rest)
  show ?thesis
  proof (cases "TYPE_SYMBOL_LOOKUP b")
    case None
    then have "b \<notin> set [CHR ''?'', CHR ''!'', CHR ''#'']" using type_symbol_lookup_None by blast
    then show ?thesis using None Cons by (simp add: parse_def malformed_def)
  next
    case (Some t)
    then have b: "\<not> b \<notin> set [CHR ''?'', CHR ''!'', CHR ''#'']"
      using type_symbol_lookup_None [of b] by simp
    have t: "TYPE_SYMBOLS t \<noteq> None" using Some type_symbol_lookup_cases by blast
    have "(\<exists>x. parse (b # rest) = Inl x)
        \<longleftrightarrow> list_ex bad_token (argument_tokens (b # rest)) \<or> bad_name (command_name (b # rest))"
      unfolding parse_unfold [OF Some]
      using map_parse_arg_bad [of "argument_tokens (b # rest)"]
        Message_init_bad_name [OF t, of "command_name (b # rest)"]
      by (cases "map_exn parse_arg (argument_tokens (b # rest))") auto
    then show ?thesis using b unfolding Cons malformed_def by auto
  qed
qed

text \<open>
  Claim C2 (parser rejection).  \<open>MessageParser.parse\<close> fails, and then with a syntax error,
  exactly on the malformed lines: the empty line, a line whose leading byte is not one of
  \<open>?\<close>, \<open>!\<close>, \<open>#\<close>, a line whose command name is empty, starts with a non-alphabetic
  character or has a character outside letters, digits and dash, and a line with an argument
  token that ends with a lone backslash, has a backslash before a character outside the escape
  alphabet, or has an unescaped NUL, LF, CR, ESC, TAB or space.  On every other line it
  returns a message.
\<close>

theorem parse_rejects_iff_malformed:
  "((\<exists>e. parse line = Inl (KatcpSyntaxError e)) \<longleftrightarrow> malformed line)
   \<and> ((\<exists>m. parse line = Inr m) \<longleftrightarrow> \<not> malformed line)"
proof -
  have "(\<exists>e. parse line = Inl (KatcpSyntaxError e)) \<longleftrightarrow> (\<exists>x. parse line = Inl x)"
    using parse_error by blast
  moreover have "(\<exists>m. parse line = Inr m) \<longleftrightarrow> \<not> (\<exists>x. parse line = Inl x)"
    by (cases "parse line") auto
  ultimately show ?thesis using parse_fails_conv by simp
qed

theorem parse_rejects_iff_malformed_witness:
  "(\<exists>e. parse (''?ok x'' @ [BACKSLASH]) = Inl (KatcpSyntaxError e))
   \<and> (\<exists>e. parse ''?o_k x'' = Inl (KatcpSyntaxError e))
   \<and> (\<exists>m. parse ''?ok x  '' = Inr m)"
proof -
  have "malformed (''?ok x'' @ [BACKSLASH])" by code_simp
  moreover have "malformed ''?o_k x''" by code_simp
  moreover have "\<not> malformed ''?ok x  ''" by code_simp
  ultimately show ?thesis
    using parse_rejects_iff_malformed [of "''?ok x'' @ [BACKSLASH]"]
      parse_rejects_iff_malformed [of "''?o_k x''"]
      parse_rejects_iff_malformed [of "''?ok x  ''"]
    by blast
qed


section \<open>Properties of sensors\<close>

subsection \<open>One round of notification\<close>









lemma Sensor_set_notify:
  "Sensor_set upd order s w ts st v
     = notify_loop upd (order (observers s)) (s\<lparr>timestamp := ts, status := st, svalue := v\<rparr>) w"
  by (simp add: Sensor_set_def notify_def)



subsection \<open>Runs of calls\<close>







subsection \<open>The range of a sensor's value\<close>

lemma py_le_refl: "py_le a a"
  by (cases a) simp_all

lemma py_le_trans: "py_le a b \<Longrightarrow> py_le b c \<Longrightarrow> py_le a c"
  by (cases a; cases b; cases c) (simp_all split: if_splits)

lemma value_in_domain_conv: "value_in_domain s \<longleftrightarrow> kattype_check (kattype s) (svalue s) = Inr ()"
  by (simp add: value_in_domain_def Sensor_value_def read_def)

lemma Sensor_value_conv: "Sensor_value s = svalue s"
  by (simp add: Sensor_value_def read_def)

lemma kattype_check_cases: "kattype_check kt v = Inr () \<or> kattype_check kt v = Inl ValueError"
  by (cases kt) simp_all

lemma Sensor_init_fields:
  assumes "Sensor_init K now t nm descr un pso dflt = Inr s0"
  shows "\<exists>v kt. init_value_kattype K t (case pso of None \<Rightarrow> [] | Some ps \<Rightarrow> ps) = Inr (v, kt)
      \<and> svalue s0 = (case dflt of None \<Rightarrow> v | Some d \<Rightarrow> d) \<and> kattype s0 = kt
      \<and> params s0 = (case pso of None \<Rightarrow> [] | Some ps \<Rightarrow> ps)"
  using assms by (auto simp: Sensor_init_def Let_def split: sum.splits prod.splits)

lemma init_value_kattype_numeric:
  assumes "t = INTEGER \<or> t = FLOAT" "init_value_kattype K t ps = Inr (v, kt)"
  shows "kt = (if t = INTEGER then Kat_Int (ps ! 0) (ps ! 1) else Kat_Float (ps ! 0) (ps ! 1))"
    and "(py_le (ps ! 0) v \<and> py_le v (ps ! 1)) \<longleftrightarrow> py_le (ps ! 0) (ps ! 1)"
proof -
  let ?d = "default_value K t"
  have kt: "kt = (if t = INTEGER then Kat_Int (ps ! 0) (ps ! 1) else Kat_Float (ps ! 0) (ps ! 1))"
    and v: "v = (if \<not> (py_le (ps ! 0) ?d \<and> py_le ?d (ps ! 1)) then ps ! 0 else ?d)"
    using assms by (auto simp: init_value_kattype_def index_def Let_def split: if_splits)
  show "kt = (if t = INTEGER then Kat_Int (ps ! 0) (ps ! 1) else Kat_Float (ps ! 0) (ps ! 1))"
    by (rule kt)
  show "(py_le (ps ! 0) v \<and> py_le v (ps ! 1)) \<longleftrightarrow> py_le (ps ! 0) (ps ! 1)"
  proof (cases "py_le (ps ! 0) ?d \<and> py_le ?d (ps ! 1)")
    case True
    then have "py_le (ps ! 0) (ps ! 1)" using py_le_trans by blast
    then show ?thesis using True v by simp
  next
    case False
    then have "v = ps ! 0" using v by simp
    then show ?thesis using py_le_refl [of "ps ! 0"] by simp
  qed
qed

lemma init_value_kattype_other:
  assumes "t \<noteq> INTEGER" "t \<noteq> FLOAT" "init_value_kattype K t ps = Inr (v, kt)"
  shows "kattype_check kt v = Inr ()" and "t = DISCRETE \<Longrightarrow> v \<in> set ps"
  using assms
  by (cases t; auto simp: init_value_kattype_def index_def Let_def split: if_splits)+

lemma notify_loop_keeps:
  assumes "stores_nothing upd"
  shows "svalue (sensor_after (notify_loop upd obs s w)) = svalue s
       \<and> kattype (sensor_after (notify_loop upd obs s w)) = kattype s"
proof (induction obs arbitrary: s w)
  case Nil
  show ?case by simp
next
  case (Cons p obs)
  obtain x s' w' where u: "upd p s w = (x, s', w')" by (cases "upd p s w") auto
  have k: "svalue s' = svalue s \<and> kattype s' = kattype s"
    using assms u unfolding stores_nothing_def by (metis fst_conv snd_conv)
  show ?case
  proof (cases x)
    case None
    then show ?thesis using u k Cons [of s' w'] by (simp add: Let_def)
  next
    case (Some e)
    then show ?thesis using u k by simp
  qed
qed

lemma Sensor_set_keeps:
  assumes "stores_nothing upd"
  shows "svalue (sensor_after (Sensor_set upd order s w ts st v)) = v"
    and "kattype (sensor_after (Sensor_set upd order s w ts st v)) = kattype s"
  unfolding Sensor_set_notify using notify_loop_keeps [OF assms] by simp_all

lemma set_value_rejected:
  assumes "kattype_check (kattype s) v \<noteq> Inr ()"
  shows "set_value upd order now s w v st ts
           = \<lparr>raised = Some ValueError, sensor_after = s, world_after = w, updated = []\<rparr>"
  using assms kattype_check_cases [of "kattype s" v]
  by (auto simp: set_value_def raises_def split: sum.splits)

lemma set_value_accepted:
  assumes "kattype_check (kattype s) v = Inr ()"
  shows "set_value upd order now s w v st ts
           = Sensor_set upd order s w (case ts of None \<Rightarrow> now | Some t \<Rightarrow> t) st v"
  using assms by (simp add: set_value_def)

lemma set_value_invariant:
  assumes "stores_nothing upd" "value_in_domain s"
  shows "value_in_domain (sensor_after (set_value upd order now s w v st ts))"
proof (cases "kattype_check (kattype s) v = Inr ()")
  case True
  then show ?thesis
    unfolding set_value_accepted [OF True] value_in_domain_conv
    by (simp add: Sensor_set_keeps [OF assms(1)])
next
  case False
  then show ?thesis using assms(2) by (simp add: set_value_rejected)
qed

lemma set_formatted_decoded:
  assumes "decode_timestamp K rt = Inr ts" "STATUS_NAMES rs = Some st"
    "unpack K (kattype s) rv = Inr v"
  shows "set_formatted K upd order s w rt rs rv = Sensor_set upd order s w ts st v"
  using assms by (simp add: set_formatted_def)

lemma set_formatted_undecoded:
  assumes "\<not> (\<exists>ts st v. decode_timestamp K rt = Inr ts \<and> STATUS_NAMES rs = Some st
               \<and> unpack K (kattype s) rv = Inr v)"
  shows "\<exists>e. set_formatted K upd order s w rt rs rv
           = \<lparr>raised = Some e, sensor_after = s, world_after = w, updated = []\<rparr>"
  using assms by (auto simp: set_formatted_def raises_def split: sum.splits option.splits)

lemma set_formatted_invariant:
  assumes "unpack_checks K" "stores_nothing upd" "value_in_domain s"
  shows "value_in_domain (sensor_after (set_formatted K upd order s w rt rs rv))"
proof (cases "\<exists>ts st v. decode_timestamp K rt = Inr ts \<and> STATUS_NAMES rs = Some st
               \<and> unpack K (kattype s) rv = Inr v")
  case True
  then obtain ts st v where d: "decode_timestamp K rt = Inr ts" "STATUS_NAMES rs = Some st"
    "unpack K (kattype s) rv = Inr v" by blast
  have "kattype_check (kattype s) v = Inr ()" using assms(1) d(3) unfolding unpack_checks_def by blast
  then show ?thesis
    unfolding set_formatted_decoded [OF d] value_in_domain_conv
    by (simp add: Sensor_set_keeps [OF assms(2)])
next
  case False
  then have "\<exists>e. set_formatted K upd order s w rt rs rv
           = \<lparr>raised = Some e, sensor_after = s, world_after = w, updated = []\<rparr>"
    by (rule set_formatted_undecoded)
  then obtain e where "set_formatted K upd order s w rt rs rv
           = \<lparr>raised = Some e, sensor_after = s, world_after = w, updated = []\<rparr>"
    by blast
  then show ?thesis using assms(3) by simp
qed

text \<open>
  Claim C4 (sensor range), as the code has it.  A sensor built without an explicit default
  starts with a value that satisfies the domain and parameters of its type; for INTEGER and
  FLOAT the type is the range \<open>[params[0], params[1]]\<close> and the value lies in it exactly when
  \<open>params[0] <= params[1]\<close>, for DISCRETE the value is one of the parameters.  An explicit
  default is stored as it is.  \<open>set_value\<close> checks before it stores: when the check of the
  type rejects the value (for INTEGER and FLOAT: when it is outside the range) it fails with
  \<open>ValueError\<close>, the sensor is as before and no observer is updated; otherwise it is \<open>set\<close>
  with that value.  \<open>set_formatted\<close> is \<open>set\<close> with the value that \<open>unpack\<close> returns, and
  leaves the sensor as it is when one of the three strings cannot be decoded.  \<open>set\<close> stores
  whatever value it is given.  So, as long as no \<open>update\<close> stores a value itself, the
  invariant is kept by every \<open>set_value\<close>, also one that an observer's exception ends, and by
  every \<open>set_formatted\<close> when the values of \<open>unpack\<close> pass the check; after \<open>set\<close> it holds
  exactly when the value given passes the check.
\<close>

theorem sensor_value_in_range:
  "(Sensor_init K now t nm descr un pso None = Inr s0 \<longrightarrow>
      params s0 = (case pso of None \<Rightarrow> [] | Some ps \<Rightarrow> ps)
      \<and> (t = INTEGER \<or> t = FLOAT \<longrightarrow>
           kattype s0 = (if t = INTEGER then Kat_Int (params s0 ! 0) (params s0 ! 1)
                         else Kat_Float (params s0 ! 0) (params s0 ! 1))
           \<and> (value_in_domain s0 \<longleftrightarrow>
                py_le (params s0 ! 0) (Sensor_value s0) \<and> py_le (Sensor_value s0) (params s0 ! 1))
           \<and> (value_in_domain s0 \<longleftrightarrow> py_le (params s0 ! 0) (params s0 ! 1)))
      \<and> (t \<noteq> INTEGER \<and> t \<noteq> FLOAT \<longrightarrow> value_in_domain s0)
      \<and> (t = DISCRETE \<longrightarrow> Sensor_value s0 \<in> set (params s0)))
   \<and> (Sensor_init K now t nm descr un pso (Some d) = Inr s1 \<longrightarrow> Sensor_value s1 = d)
   \<and> (kattype s = Kat_Int lo hi \<or> kattype s = Kat_Float lo hi \<longrightarrow>
        (kattype_check (kattype s) v = Inr () \<longleftrightarrow> py_le lo v \<and> py_le v hi))
   \<and> (kattype_check (kattype s) v \<noteq> Inr () \<longrightarrow>
        set_value upd order now' s w v st ts
          = \<lparr>raised = Some ValueError, sensor_after = s, world_after = w, updated = []\<rparr>)
   \<and> (kattype_check (kattype s) v = Inr () \<longrightarrow>
        set_value upd order now' s w v st ts
          = Sensor_set upd order s w (case ts of None \<Rightarrow> now' | Some t \<Rightarrow> t) st v)
   \<and> (decode_timestamp K rt = Inr ts' \<and> STATUS_NAMES rs = Some st' \<and> unpack K (kattype s) rv = Inr v'
        \<longrightarrow> set_formatted K upd order s w rt rs rv = Sensor_set upd order s w ts' st' v')
   \<and> (\<not> (\<exists>ts' st' v'. decode_timestamp K rt = Inr ts' \<and> STATUS_NAMES rs = Some st'
              \<and> unpack K (kattype s) rv = Inr v')
        \<longrightarrow> (\<exists>e. set_formatted K upd order s w rt rs rv
                  = \<lparr>raised = Some e, sensor_after = s, world_after = w, updated = []\<rparr>))
   \<and> (stores_nothing upd \<longrightarrow>
        Sensor_value (sensor_after (Sensor_set upd order s w ts'' st v)) = v
        \<and> kattype (sensor_after (Sensor_set upd order s w ts'' st v)) = kattype s
        \<and> (value_in_domain (sensor_after (Sensor_set upd order s w ts'' st v))
             \<longleftrightarrow> kattype_check (kattype s) v = Inr ()))
   \<and> (stores_nothing upd \<and> value_in_domain s \<longrightarrow>
        value_in_domain (sensor_after (set_value upd order now' s w v st ts)))
   \<and> (unpack_checks K \<and> stores_nothing upd \<and> value_in_domain s \<longrightarrow>
        value_in_domain (sensor_after (set_formatted K upd order s w rt rs rv)))"
proof (intro conjI impI)
  assume i: "Sensor_init K now t nm descr un pso None = Inr s0"
  let ?ps = "case pso of None \<Rightarrow> [] | Some ps \<Rightarrow> ps"
  obtain v0 kt where f: "init_value_kattype K t ?ps = Inr (v0, kt)" "svalue s0 = v0"
    "kattype s0 = kt" "params s0 = ?ps"
    using Sensor_init_fields [OF i] by auto
  show "params s0 = ?ps" by (rule f(4))
  {
    assume n: "t = INTEGER \<or> t = FLOAT"
    note k = init_value_kattype_numeric [OF n f(1)]
    show "kattype s0 = (if t = INTEGER then Kat_Int (params s0 ! 0) (params s0 ! 1)
                         else Kat_Float (params s0 ! 0) (params s0 ! 1))"
      using k(1) f by simp
    show r: "value_in_domain s0 \<longleftrightarrow>
                py_le (params s0 ! 0) (Sensor_value s0) \<and> py_le (Sensor_value s0) (params s0 ! 1)"
      using k(1) f by (auto simp: value_in_domain_conv Sensor_value_conv split: if_splits)
    show "value_in_domain s0 \<longleftrightarrow> py_le (params s0 ! 0) (params s0 ! 1)"
      unfolding r using k(2) f by (simp add: Sensor_value_conv)
  }
  {
    assume "t \<noteq> INTEGER \<and> t \<noteq> FLOAT"
    then show "value_in_domain s0"
      using init_value_kattype_other(1) [OF _ _ f(1)] f by (simp add: value_in_domain_conv)
  }
  {
    assume "t = DISCRETE"
    then show "Sensor_value s0 \<in> set (params s0)"
      using init_value_kattype_other(2) [OF _ _ f(1)] f by (simp add: Sensor_value_conv)
  }
next
  assume "Sensor_init K now t nm descr un pso (Some d) = Inr s1"
  then show "Sensor_value s1 = d"
    using Sensor_init_fields [of K now t nm descr un pso "Some d" s1]
    by (auto simp: Sensor_value_conv)
next
  assume "kattype s = Kat_Int lo hi \<or> kattype s = Kat_Float lo hi"
  then show "kattype_check (kattype s) v = Inr () \<longleftrightarrow> py_le lo v \<and> py_le v hi"
    by (auto split: if_splits)
next
  assume "kattype_check (kattype s) v \<noteq> Inr ()"
  then show "set_value upd order now' s w v st ts
          = \<lparr>raised = Some ValueError, sensor_after = s, world_after = w, updated = []\<rparr>"
    by (rule set_value_rejected)
next
  assume "kattype_check (kattype s) v = Inr ()"
  then show "set_value upd order now' s w v st ts
          = Sensor_set upd order s w (case ts of None \<Rightarrow> now' | Some t \<Rightarrow> t) st v"
    by (rule set_value_accepted)
next
  assume "decode_timestamp K rt = Inr ts' \<and> STATUS_NAMES rs = Some st'
            \<and> unpack K (kattype s) rv = Inr v'"
  then show "set_formatted K upd order s w rt rs rv = Sensor_set upd order s w ts' st' v'"
    by (simp add: set_formatted_def)
next
  assume "\<not> (\<exists>ts' st' v'. decode_timestamp K rt = Inr ts' \<and> STATUS_NAMES rs = Some st'
              \<and> unpack K (kattype s) rv = Inr v')"
  then show "\<exists>e. set_formatted K upd order s w rt rs rv
                  = \<lparr>raised = Some e, sensor_after = s, world_after = w, updated = []\<rparr>"
    by (rule set_formatted_undecoded)
next
  assume sn: "stores_nothing upd"
  show "Sensor_value (sensor_after (Sensor_set upd order s w ts'' st v)) = v"
    by (simp add: Sensor_value_conv Sensor_set_keeps [OF sn])
  show "kattype (sensor_after (Sensor_set upd order s w ts'' st v)) = kattype s"
    by (simp add: Sensor_set_keeps [OF sn])
  show "value_in_domain (sensor_after (Sensor_set upd order s w ts'' st v))
             \<longleftrightarrow> kattype_check (kattype s) v = Inr ()"
    by (simp add: value_in_domain_conv Sensor_set_keeps [OF sn])
next
  assume "stores_nothing upd \<and> value_in_domain s"
  then show "value_in_domain (sensor_after (set_value upd order now' s w v st ts))"
    by (simp add: set_value_invariant)
next
  assume "unpack_checks K \<and> stores_nothing upd \<and> value_in_domain s"
  then show "value_in_domain (sensor_after (set_formatted K upd order s w rt rs rv))"
    by (simp add: set_formatted_invariant)
qed

lemma Sensor_init_an_int:
  "Sensor_init test_kattypes 0 INTEGER ''an.int'' ''An integer.'' ''count''
     (Some [PyInt (- 4), PyInt 3]) None = Inr an_int"
  by (simp add: Sensor_init_def init_value_kattype_def index_def test_kattypes_def an_int_def Let_def)

lemma stores_nothing_quiet: "stores_nothing quiet"
  by (simp add: stores_nothing_def quiet_def)

lemma stores_nothing_failing: "stores_nothing failing"
  by (simp add: stores_nothing_def failing_def)

lemma unpack_checks_test_kattypes: "unpack_checks test_kattypes"
  by (auto simp: unpack_checks_def test_kattypes_def test_unpack_def
           split: list.splits if_splits sum.splits)

theorem sensor_value_in_range_witness:
  "value_in_domain an_int
   \<and> set_value quiet sorted_list_of_fset 0 (attach 1 an_int) 0 (PyInt 4) NOMINAL None
       = \<lparr>raised = Some ValueError, sensor_after = attach 1 an_int, world_after = 0, updated = []\<rparr>
   \<and> raised (set_value quiet sorted_list_of_fset 0 (attach 1 an_int) 0 (PyInt 3) NOMINAL None) = None
   \<and> Sensor_value (sensor_after
         (set_value quiet sorted_list_of_fset 0 (attach 1 an_int) 0 (PyInt 3) NOMINAL None)) = PyInt 3
   \<and> value_in_domain (sensor_after
         (set_value quiet sorted_list_of_fset 0 (attach 1 an_int) 0 (PyInt 3) NOMINAL None))
   \<and> raised (set_value failing sorted_list_of_fset 0 (attach 1 an_int) 0 (PyInt 3) NOMINAL None)
       = Some (OtherException ''update failed'')
   \<and> value_in_domain (sensor_after
         (set_value failing sorted_list_of_fset 0 (attach 1 an_int) 0 (PyInt 3) NOMINAL None))
   \<and> Sensor_value (sensor_after
         (set_formatted test_kattypes quiet sorted_list_of_fset (attach 1 an_int) 0
            ''12345000'' ''nominal'' ''3'')) = PyInt 3
   \<and> value_in_domain (sensor_after
         (set_formatted test_kattypes quiet sorted_list_of_fset (attach 1 an_int) 0
            ''12345000'' ''nominal'' ''3''))
   \<and> sensor_after (set_formatted test_kattypes quiet sorted_list_of_fset (attach 1 an_int) 0
                     ''12345000'' ''nominal'' ''9'') = attach 1 an_int"
proof -
  let ?s = "attach 1 an_int"
  note A = sensor_value_in_range [where K = test_kattypes and now = 0 and t = INTEGER
      and nm = "''an.int''" and descr = "''An integer.''" and un = "''count''"
      and pso = "Some [PyInt (- 4), PyInt 3]" and ?s0.0 = an_int and s = ?s
      and lo = "PyInt (- 4)" and hi = "PyInt 3" and v = "PyInt 4" and upd = quiet
      and order = sorted_list_of_fset and now' = 0 and w = 0 and st = NOMINAL and ts = None
      and rt = "''12345000''" and rs = "''nominal''" and rv = "''9''"]
  note B = sensor_value_in_range [where K = test_kattypes and s = ?s
      and v = "PyInt 3" and upd = quiet
      and order = sorted_list_of_fset and now' = 0 and w = 0 and st = NOMINAL and ts = None
      and rt = "''12345000''" and rs = "''nominal''" and rv = "''3''"
      and ts' = 12345 and st' = NOMINAL and v' = "PyInt 3" and ts'' = 12345]
  note B0 = sensor_value_in_range [where s = ?s
      and v = "PyInt 3" and upd = quiet
      and order = sorted_list_of_fset and now' = 0 and w = 0 and st = NOMINAL and ts = None
      and ts'' = 0]
  note C = sensor_value_in_range [where s = ?s and v = "PyInt 3" and upd = failing
      and order = sorted_list_of_fset and now' = 0 and w = 0 and st = NOMINAL and ts = None]
  have kt: "kattype ?s = Kat_Int (PyInt (- 4)) (PyInt 3)" by (simp add: attach_def an_int_def)
  have ps: "py_le (params an_int ! 0) (params an_int ! 1)" by (simp add: an_int_def)
  have "value_in_domain an_int \<longleftrightarrow> py_le (params an_int ! 0) (params an_int ! 1)"
    using A Sensor_init_an_int by blast
  then have 1: "value_in_domain an_int" using ps by simp
  then have vs: "value_in_domain ?s" by (simp add: value_in_domain_conv attach_def)
  have no4: "kattype_check (kattype ?s) (PyInt 4) \<noteq> Inr ()" unfolding kt by simp
  have ok3: "kattype_check (kattype ?s) (PyInt 3) = Inr ()" unfolding kt by simp
  have 2: "set_value quiet sorted_list_of_fset 0 ?s 0 (PyInt 4) NOMINAL None
       = \<lparr>raised = Some ValueError, sensor_after = ?s, world_after = 0, updated = []\<rparr>"
    using A no4 by blast
  have 3: "raised (set_value quiet sorted_list_of_fset 0 ?s 0 (PyInt 3) NOMINAL None) = None"
    by code_simp
  have e3: "set_value quiet sorted_list_of_fset 0 ?s 0 (PyInt 3) NOMINAL None
              = Sensor_set quiet sorted_list_of_fset ?s 0 0 NOMINAL (PyInt 3)"
    using B0 ok3 by simp
  have "Sensor_value (sensor_after (Sensor_set quiet sorted_list_of_fset ?s 0 0 NOMINAL (PyInt 3)))
          = PyInt 3"
    using B0 stores_nothing_quiet by blast
  then have 4: "Sensor_value (sensor_after
         (set_value quiet sorted_list_of_fset 0 ?s 0 (PyInt 3) NOMINAL None)) = PyInt 3"
    unfolding e3 .
  have 5: "value_in_domain (sensor_after
         (set_value quiet sorted_list_of_fset 0 ?s 0 (PyInt 3) NOMINAL None))"
    using B0 stores_nothing_quiet vs by blast
  have 6: "raised (set_value failing sorted_list_of_fset 0 ?s 0 (PyInt 3) NOMINAL None)
       = Some (OtherException ''update failed'')"
    by code_simp
  have 7: "value_in_domain (sensor_after
         (set_value failing sorted_list_of_fset 0 ?s 0 (PyInt 3) NOMINAL None))"
    using C stores_nothing_failing vs by blast
  have d: "decode_timestamp test_kattypes ''12345000'' = Inr 12345"
    "STATUS_NAMES ''nominal'' = Some NOMINAL"
    by (simp_all add: test_kattypes_def STATUS_NAMES_def)
  have u3: "unpack test_kattypes (kattype ?s) ''3'' = Inr (PyInt 3)"
    unfolding kt by (simp add: test_kattypes_def test_unpack_def isdigit_def)
  have u9: "\<not> (\<exists>ts' st' v'. decode_timestamp test_kattypes ''12345000'' = Inr ts'
              \<and> STATUS_NAMES ''nominal'' = Some st'
              \<and> unpack test_kattypes (kattype ?s) ''9'' = Inr v')"
    unfolding kt by (simp add: test_kattypes_def test_unpack_def isdigit_def)
  have f3: "set_formatted test_kattypes quiet sorted_list_of_fset ?s 0 ''12345000'' ''nominal'' ''3''
              = Sensor_set quiet sorted_list_of_fset ?s 0 12345 NOMINAL (PyInt 3)"
    using B d u3 by blast
  have "Sensor_value (sensor_after (Sensor_set quiet sorted_list_of_fset ?s 0 12345 NOMINAL (PyInt 3)))
          = PyInt 3"
    using B stores_nothing_quiet by blast
  then have 8: "Sensor_value (sensor_after
         (set_formatted test_kattypes quiet sorted_list_of_fset ?s 0
            ''12345000'' ''nominal'' ''3'')) = PyInt 3"
    unfolding f3 .
  have 9: "value_in_domain (sensor_after
         (set_formatted test_kattypes quiet sorted_list_of_fset ?s 0
            ''12345000'' ''nominal'' ''3''))"
    using B unpack_checks_test_kattypes stores_nothing_quiet vs by blast
  have "\<exists>e. set_formatted test_kattypes quiet sorted_list_of_fset ?s 0 ''12345000'' ''nominal'' ''9''
           = \<lparr>raised = Some e, sensor_after = ?s, world_after = 0, updated = []\<rparr>"
    using A u9 by blast
  then have 10: "sensor_after (set_formatted test_kattypes quiet sorted_list_of_fset ?s 0
                     ''12345000'' ''nominal'' ''9'') = ?s"
    by auto
  show ?thesis using 1 2 3 4 5 6 7 8 9 10 by blast
qed

text \<open>
  Where the invariant fails.  On the INTEGER sensor with parameters \<open>[-4, 3]\<close>, \<open>set\<close> stores
  the value 4.  A sensor built with the default 7 holds 7.  A sensor built with the parameters
  \<open>[3, -4]\<close> holds 3, which no value of the empty range can equal.  And when an observer's
  \<open>update\<close> stores 9, that is the value after \<open>set_value\<close> has stored 3.
\<close>

theorem set_stores_unchecked_counterexample:
  "Sensor_init test_kattypes 0 INTEGER ''an.int'' ''An integer.'' ''count''
     (Some [PyInt (- 4), PyInt 3]) None = Inr an_int
   \<and> value_in_domain an_int
   \<and> raised (Sensor_set quiet sorted_list_of_fset an_int 0 12345 NOMINAL (PyInt 4)) = None
   \<and> Sensor_value (sensor_after (Sensor_set quiet sorted_list_of_fset an_int 0 12345 NOMINAL (PyInt 4)))
       = PyInt 4
   \<and> \<not> value_in_domain
         (sensor_after (Sensor_set quiet sorted_list_of_fset an_int 0 12345 NOMINAL (PyInt 4)))
   \<and> (case Sensor_init test_kattypes 0 INTEGER ''an.int'' ''An integer.'' ''count''
              (Some [PyInt (- 4), PyInt 3]) (Some (PyInt 7)) of
         Inl e \<Rightarrow> False
       | Inr s \<Rightarrow> Sensor_value s = PyInt 7 \<and> \<not> value_in_domain s)
   \<and> (case Sensor_init test_kattypes 0 INTEGER ''an.int'' ''An integer.'' ''count''
              (Some [PyInt 3, PyInt (- 4)]) None of
         Inl e \<Rightarrow> False
       | Inr s \<Rightarrow> Sensor_value s = PyInt 3 \<and> \<not> value_in_domain s)
   \<and> raised (set_value storing sorted_list_of_fset 0 (attach 1 an_int) 0 (PyInt 3) NOMINAL None)
       = None
   \<and> Sensor_value (sensor_after
        (set_value storing sorted_list_of_fset 0 (attach 1 an_int) 0 (PyInt 3) NOMINAL None))
       = PyInt 9
   \<and> \<not> value_in_domain (sensor_after
        (set_value storing sorted_list_of_fset 0 (attach 1 an_int) 0 (PyInt 3) NOMINAL None))"
  by code_simp

section \<open>Properties of the server\<close>

lemma Message_str_total:
  assumes "TYPE_SYMBOLS (mtype m) \<noteq> None"
  shows "\<exists>line. Message_str m = Inr line"
proof -
  from map_escape_sub_props [of "arguments m"] obtain rs where
    "map_exn escape_sub (arguments m) = Inr rs" by blast
  then show ?thesis using assms by (auto simp: Message_str_def)
qed

lemma send_loop_Nil: "send_loop [] d e = (False, e, d, [])"
  by (cases d) simp_all

text \<open>
  Claim C10 (send to a socket that is not a client).  When the socket has no send lock,
  \<open>send_message\<close> returns without raising, and the state after it is the state before it
  with two calls of the logger added: the debug record of the data and the warning.  No byte
  is sent, and the client list, the partial buffers, the locks and the strategies are as
  they were.
\<close>

theorem send_to_non_client_is_noop:
  assumes "sock_locks s sock = None" and "TYPE_SYMBOLS (mtype msg) \<noteq> None"
  shows "\<exists>line. Message_str msg = Inr line
     \<and> send_message R s sock msg =
         (Inr (), s\<lparr>logged := logged s @
             [(Log_debug, line @ [LF]),
              (Log_warn, ''Attempt to send to a socket '' @ client_name R sock
                           @ '' which is no longer a client.'')]\<rparr>)"
proof -
  from Message_str_total [OF assms(2)] obtain line where l: "Message_str msg = Inr line" by blast
  show ?thesis using l assms(1) by (simp add: log_call_def Let_def)
qed

theorem send_to_non_client_is_noop_witness:
  "\<exists>line. Message_str \<lparr>mtype = INFORM, name = ''version'', arguments = [''device_stub-0.1'']\<rparr> = Inr line
     \<and> send_message test_runtime test_server 7
          \<lparr>mtype = INFORM, name = ''version'', arguments = [''device_stub-0.1'']\<rparr> =
         (Inr (), test_server\<lparr>logged := logged test_server @
             [(Log_debug, line @ [LF]),
              (Log_warn, ''Attempt to send to a socket '' @ client_name test_runtime 7
                           @ '' which is no longer a client.'')]\<rparr>)"
proof -
  have 1: "sock_locks test_server 7 = None" by (simp add: test_server_def)
  have 2: "TYPE_SYMBOLS (mtype \<lparr>mtype = INFORM, name = ''version'',
              arguments = [''device_stub-0.1'']\<rparr>) \<noteq> None"
    by (simp add: TYPE_SYMBOLS_def INFORM_def)
  show ?thesis by (rule send_to_non_client_is_noop [OF 1 2])
qed

lemma send_loop_failed_bound:
  "\<forall>r \<in> set script. r \<noteq> Sent 0 \<Longrightarrow> send_loop script d e = (True, e', out, rest) \<Longrightarrow> e' \<noteq> None"
  by (induction script d e arbitrary: out rule: send_loop.induct)
     (auto split: if_splits prod.splits)

lemma remove_socket_ok:
  assumes "sock \<in> set (socks s) \<longrightarrow> waiting_chunks s sock \<noteq> None \<and> sock_locks s sock \<noteq> None"
  shows "\<exists>s'. remove_socket s sock = (Inr (), s')"
  using assms by (auto simp: remove_socket_def Let_def)

lemma remove_socket_socks:
  "remove_socket s sock = (r, s') \<Longrightarrow> strategies s' = strategies s \<and> reactor s' = reactor s
     \<and> wire s' = wire s \<and> sensors s' = sensors s"
  by (auto simp: remove_socket_def Let_def split: if_splits)

text \<open>
  Apart from a \<open>sock.send\<close> that returns 0, \<open>send_message\<close> does not raise: a message of a
  valid kind, a server whose client list, buffers and locks agree for the socket.
\<close>

lemma send_message_no_exception:
  assumes "TYPE_SYMBOLS (mtype msg) \<noteq> None"
    and "\<forall>r \<in> set (net s sock). r \<noteq> Sent 0"
    and "sock \<in> set (socks s) \<longrightarrow> waiting_chunks s sock \<noteq> None"
  shows "fst (send_message R s sock msg) = Inr ()"
proof -
  from Message_str_total [OF assms(1)] obtain line where l: "Message_str msg = Inr line" by blast
  show ?thesis
  proof (cases "sock_locks s sock")
    case None
    then show ?thesis using l by (simp add: log_call_def Let_def)
  next
    case (Some lock)
    obtain failed e out rest where sl: "send_loop (net s sock) (line @ [LF]) None = (failed, e, out, rest)"
      using prod_cases4 by blast
    show ?thesis
    proof (cases failed)
      case False
      then show ?thesis using l Some sl by (simp add: log_call_def Let_def)
    next
      case True
      then have "e \<noteq> None"
        using send_loop_failed_bound [OF assms(2), of "line @ [LF]" None e out rest] sl by simp
      then obtain etext where e: "e = Some etext" by auto
      let ?s3 = "log_call Log_error (''Failed to send message to client '' @ client_name R sock
                    @ '' ('' @ etext @ '')'')
                  ((log_call Log_debug (line @ [LF]) s)
                     \<lparr>net := (net (log_call Log_debug (line @ [LF]) s))(sock := rest),
                      wire := (wire (log_call Log_debug (line @ [LF]) s))
                                (sock := wire (log_call Log_debug (line @ [LF]) s) sock @ out)\<rparr>)"
      have "sock \<in> set (socks ?s3) \<longrightarrow> waiting_chunks ?s3 sock \<noteq> None \<and> sock_locks ?s3 sock \<noteq> None"
        using assms(3) Some by (simp add: log_call_def)
      then obtain s4 where "remove_socket ?s3 sock = (Inr (), s4)"
        using remove_socket_ok by blast
      then show ?thesis using l Some sl True e
        by (simp add: log_call_def Let_def and_then_def)
    qed
  qed
qed

text \<open>
  What \<open>handle_request\<close> does with each outcome of the handler, for a request with a valid
  name: the reply it hands to \<open>send_message\<close>.
\<close>

lemma Message_reply_valid:
  assumes "Message_init t n a = Inr m"
  shows "Message_reply n args = Inr \<lparr>mtype = REPLY, name = n, arguments = args\<rparr>"
  using assms
  by (auto simp: Message_reply_def Message_init_def TYPE_SYMBOLS_def REPLY_def split: if_splits)

lemma handle_request_dispatch:
  assumes valid: "Message_init (mtype msg) (name msg) (arguments msg) = Inr msg"
  shows "map_of (request_handlers H) (name msg) = None \<longrightarrow>
           handle_request H R s sock msg =
             send_message R (log_call Log_error (name msg @ '' INVALID: Unknown request.'') s) sock
               \<lparr>mtype = REPLY, name = name msg, arguments = [''invalid'', ''Unknown request.'']\<rparr>"
    and "map_of (request_handlers H) (name msg) = Some (doc, method) \<longrightarrow>
         method s sock msg = (Returns reply, s1) \<longrightarrow> mtype reply = REPLY \<longrightarrow> name reply = name msg \<longrightarrow>
           handle_request H R s sock msg =
             send_message R (log_call Log_info (name msg @ '' OK'') s1) sock reply"
    and "map_of (request_handlers H) (name msg) = Some (doc, method) \<longrightarrow>
         method s sock msg = (Raises (FailReply reason), s1) \<longrightarrow>
           handle_request H R s sock msg =
             send_message R
               (log_call Log_error (''Request '' @ name msg @ '' FAIL: '' @ reason) s1) sock
               \<lparr>mtype = REPLY, name = name msg, arguments = [''fail'', reason]\<rparr>"
    and "map_of (request_handlers H) (name msg) = Some (doc, method) \<longrightarrow>
         method s sock msg = (Raises AsyncReply, s1) \<longrightarrow>
           handle_request H R s sock msg = (Inr (), log_call Log_info (name msg @ '' ASYNC OK'') s1)"
    and "map_of (request_handlers H) (name msg) = Some (doc, method) \<longrightarrow>
         method s sock msg = (Raises ex, s1) \<longrightarrow> ex \<noteq> AsyncReply \<longrightarrow> (\<forall>r. ex \<noteq> FailReply r) \<longrightarrow>
           handle_request H R s sock msg =
             send_message R
               (log_call Log_error
                  (''Request '' @ name msg @ '' FAIL: '' @ traceback_reason R s1 ex) s1) sock
               \<lparr>mtype = REPLY, name = name msg,
                 arguments = [''fail'', traceback_reason R s1 ex]\<rparr>"
proof -
  note rep = Message_reply_valid [OF valid]
  show "map_of (request_handlers H) (name msg) = None \<longrightarrow>
           handle_request H R s sock msg =
             send_message R (log_call Log_error (name msg @ '' INVALID: Unknown request.'') s) sock
               \<lparr>mtype = REPLY, name = name msg, arguments = [''invalid'', ''Unknown request.'']\<rparr>"
    by (simp add: handle_request_def rep Let_def del: send_message.simps)
  show "map_of (request_handlers H) (name msg) = Some (doc, method) \<longrightarrow>
         method s sock msg = (Returns reply, s1) \<longrightarrow> mtype reply = REPLY \<longrightarrow> name reply = name msg \<longrightarrow>
           handle_request H R s sock msg =
             send_message R (log_call Log_info (name msg @ '' OK'') s1) sock reply"
    by (simp add: handle_request_def del: send_message.simps)
  show "map_of (request_handlers H) (name msg) = Some (doc, method) \<longrightarrow>
         method s sock msg = (Raises (FailReply reason), s1) \<longrightarrow>
           handle_request H R s sock msg =
             send_message R
               (log_call Log_error (''Request '' @ name msg @ '' FAIL: '' @ reason) s1) sock
               \<lparr>mtype = REPLY, name = name msg, arguments = [''fail'', reason]\<rparr>"
    by (simp add: handle_request_def rep Let_def del: send_message.simps)
  show "map_of (request_handlers H) (name msg) = Some (doc, method) \<longrightarrow>
         method s sock msg = (Raises AsyncReply, s1) \<longrightarrow>
           handle_request H R s sock msg = (Inr (), log_call Log_info (name msg @ '' ASYNC OK'') s1)"
    by (simp add: handle_request_def del: send_message.simps)
  show "map_of (request_handlers H) (name msg) = Some (doc, method) \<longrightarrow>
         method s sock msg = (Raises ex, s1) \<longrightarrow> ex \<noteq> AsyncReply \<longrightarrow> (\<forall>r. ex \<noteq> FailReply r) \<longrightarrow>
           handle_request H R s sock msg =
             send_message R
               (log_call Log_error
                  (''Request '' @ name msg @ '' FAIL: '' @ traceback_reason R s1 ex) s1) sock
               \<lparr>mtype = REPLY, name = name msg,
                 arguments = [''fail'', traceback_reason R s1 ex]\<rparr>"
    by (cases ex) (simp_all add: handle_request_def fail_with_traceback_def rep Let_def
        del: send_message.simps)
qed

text \<open>
  Claim C3 (request dispatch), where the code breaks it.  The reply of the handler is handed
  to \<open>send_message\<close>; when the first \<open>sock.send\<close> returns 0, \<open>send_message\<close> reads the name
  \<open>e\<close>, which no \<open>except\<close> clause has bound, and the \<open>UnboundLocalError\<close> leaves
  \<open>handle_request\<close>.
\<close>

theorem handle_request_propagates_unbound_e:
  "fst (handle_request test_handlers test_runtime (test_server\<lparr>net := (\<lambda>sock. [Sent 0])\<rparr>) 1
          \<lparr>mtype = REQUEST, name = ''watchdog'', arguments = []\<rparr>) = Inl UnboundLocalError"
  by code_simp

subsection \<open>Sending to a client\<close>












lemma remove_socket_fields:
  "remove_socket s sock = (r, s') \<Longrightarrow> net s' = net s"
  by (auto simp: remove_socket_def Let_def split: if_splits)




subsection \<open>The help request\<close>





















subsection \<open>Inbound framing\<close>























end
